theory Spec2Isabelle
  imports Main "HOL-Library.Word" "HOL-Library.Monad_Syntax"
begin

unbundle bit_operations_syntax

section \<open>ZVector: a shallow embedding of zvector.c\<close>

text \<open>
  The embedding follows \<^verbatim>\<open>src/zvector.c\<close> function by function, for the build the
  file selects by default where it has a choice: thread safety on
  (\<^verbatim>\<open>ZVECT_THREAD_SAFE == 1\<close>), the data manipulation and SFMD extensions compiled in,
  the adaptive binary search and the three-way quicksort (no \<^verbatim>\<open>TRADITIONAL_*\<close> macro),
  and in-place shifts (\<^verbatim>\<open>ZVECT_FULL_REENTRANT == 0\<close>, the \<^verbatim>\<open>#else\<close> branches).

  \<^item> A pointer is a natural number, \<open>0\<close> is \<^verbatim>\<open>NULL\<close>. The heap maps the address of an
    element block to its bytes. Every call of \<^verbatim>\<open>free\<close> on a non-null pointer is logged.
  \<^item> \<^verbatim>\<open>malloc\<close>, \<^verbatim>\<open>calloc\<close> and \<^verbatim>\<open>realloc\<close> succeed or fail as the world's
    \<open>alloc_plan\<close> says: each call consumes one entry, an empty plan means success.
  \<^item> The slot array \<^verbatim>\<open>void **data\<close> is a list of pointers kept in the vector record;
    a slot that C leaves uninitialised after \<^verbatim>\<open>malloc\<close>/\<^verbatim>\<open>realloc\<close> reads as \<^verbatim>\<open>NULL\<close>.
  \<^item> An access outside the slot array or outside an allocated element block is undefined
    behaviour in C; every function that can run into one returns \<open>None\<close> there.
  \<^item> \<^verbatim>\<open>zvect_index\<close> is an unsigned machine integer. Indices are natural numbers here.
    The subtractions of the source that can go below zero wrap around explicitly
    (\<open>isub\<close>), and so do the sum \<^verbatim>\<open>s2 + ee2\<close> of \<^verbatim>\<open>vect_insert\<close>, whose second summand
    can be a wrapped difference (\<open>iadd\<close>), and the narrowing of the \<^verbatim>\<open>size_t\<close> argument of
    \<^verbatim>\<open>vect_create\<close>. The other sums and doublings of indices stay far below the word size
    for every buffer that fits in memory and are not reduced.
  \<^item> A loop of the source that never ends is \<open>None\<close> as well.
\<close>

subsection \<open>Header constants\<close>

text \<open>Modelled from the spec: the error signals of \<^verbatim>\<open>zvector.h\<close> (section 6 of the
  specification names them; the header is not among the sources). \<open>ZV_OK\<close> is the return
  value \<open>0\<close>.\<close>

datatype zvect_retval =
    ZV_OK
  | ZVERR_VECTUNDEF
  | ZVERR_IDXOUTOFBOUND
  | ZVERR_OUTOFMEM
  | ZVERR_VECTCORRUPTED
  | ZVERR_RACECOND
  | ZVERR_VECTTOOSMALL
  | ZVERR_VECTDATASIZE
  | ZVERR_VECTEMPTY

text \<open>Modelled from the spec: the construction properties of \<^verbatim>\<open>zvector.h\<close> (by-reference,
  secure-wipe, circular). The source tests them as bits of \<^verbatim>\<open>flags\<close>; here \<^verbatim>\<open>flags\<close> is
  the set of the properties whose bit is set.\<close>

datatype property = ZV_BYREF | ZV_SEC_WIPE | ZV_CIRCULAR

text \<open>Modelled from the spec: the width of \<^verbatim>\<open>zvect_index\<close> is a build-time choice between
  32 and 64 bits (section 1); the 32-bit one is taken.\<close>

definition zvect_index_range :: nat where
  "zvect_index_range = 2 ^ 32"

definition isub :: "nat \<Rightarrow> nat \<Rightarrow> nat" where
  "isub a b = (if b \<le> a then a - b else a + zvect_index_range - b)"

text \<open>The value of a natural number as a \<^verbatim>\<open>zvect_index\<close>: its low 32 bits, computed
  bit by bit (it is the number modulo \<open>zvect_index_range\<close>).\<close>

fun low_bits :: "nat \<Rightarrow> nat \<Rightarrow> nat" where
  "low_bits 0 a = 0"
| "low_bits (Suc n) a = a mod 2 + 2 * low_bits n (a div 2)"

definition as_zvect_index :: "nat \<Rightarrow> nat" where
  "as_zvect_index a = low_bits 32 a"

definition iadd :: "nat \<Rightarrow> nat \<Rightarrow> nat" where
  "iadd a b = as_zvect_index (a + b)"

definition ZVS_NONE :: "32 word" where
  "ZVS_NONE = 0"

definition ZVS_CUST_WIPE_ON :: "32 word" where
  "ZVS_CUST_WIPE_ON = push_bit 0 1"

subsection \<open>The heap and the allocator\<close>

type_synonym ptr = nat

type_synonym byte = "8 word"

abbreviation NULL :: ptr where
  "NULL \<equiv> 0"

record world =
  mem :: "ptr \<Rightarrow> byte list option"
  freed :: "ptr list"
  next_ptr :: ptr
  alloc_plan :: "bool list"
  lock_enabled :: bool
  p_init_state :: nat

definition alloc_attempt :: "world \<Rightarrow> bool \<times> world" where
  "alloc_attempt w =
     (case alloc_plan w of
        [] \<Rightarrow> (True, w)
      | b # bs \<Rightarrow> (b, w\<lparr>alloc_plan := bs\<rparr>))"

definition malloc :: "nat \<Rightarrow> world \<Rightarrow> ptr \<times> world" where
  "malloc n w =
     (case alloc_attempt w of
        (True, w1) \<Rightarrow>
          (next_ptr w1,
           w1\<lparr>mem := (mem w1)(next_ptr w1 \<mapsto> replicate n 0),
              next_ptr := Suc (next_ptr w1)\<rparr>)
      | (False, w1) \<Rightarrow> (NULL, w1))"

definition free :: "ptr \<Rightarrow> world \<Rightarrow> world" where
  "free p w =
     (if p = NULL then w
      else w\<lparr>mem := (mem w)(p := None), freed := freed w @ [p]\<rparr>)"

definition memset_zero :: "ptr \<Rightarrow> nat \<Rightarrow> world \<Rightarrow> world option" where
  "memset_zero item n w =
     (case mem w item of
        None \<Rightarrow> None
      | Some d \<Rightarrow>
          if n \<le> length d
          then Some (w\<lparr>mem := (mem w)(item \<mapsto> replicate n 0 @ drop n d)\<rparr>)
          else None)"

text \<open>\<^verbatim>\<open>p_vect_memcpy\<close> on element bytes: both variants of the source
  (\<^verbatim>\<open>ZVECT_MEMX_METHOD\<close> 0 and 1) copy \<open>n\<close> bytes from \<open>src\<close> to \<open>dst\<close>.\<close>

definition p_vect_memcpy :: "ptr \<Rightarrow> ptr \<Rightarrow> nat \<Rightarrow> world \<Rightarrow> world option" where
  "p_vect_memcpy dst src n w =
     (case mem w dst of
        None \<Rightarrow> None
      | Some d \<Rightarrow>
          (case mem w src of
             None \<Rightarrow> None
           | Some s \<Rightarrow>
               if n \<le> length d \<and> n \<le> length s
               then Some (w\<lparr>mem := (mem w)(dst \<mapsto> take n s @ drop n d)\<rparr>)
               else None))"

subsection \<open>Slot arrays\<close>

definition slot_get :: "ptr list \<Rightarrow> nat \<Rightarrow> ptr option" where
  "slot_get xs i = (if i < length xs then Some (xs ! i) else None)"

definition slot_set :: "ptr list \<Rightarrow> nat \<Rightarrow> ptr \<Rightarrow> ptr list option" where
  "slot_set xs i p = (if i < length xs then Some (xs[i := p]) else None)"

text \<open>\<^verbatim>\<open>p_vect_memcpy\<close> and \<^verbatim>\<open>vect_memmove\<close> on slot arrays: \<open>n\<close> slots from offset
  \<open>soff\<close> of \<open>src\<close> to offset \<open>doff\<close> of \<open>dst\<close>. With \<open>src = dst\<close> this is
  \<^verbatim>\<open>memmove\<close> (all slots are read before any is written).\<close>

definition slots_copy :: "ptr list \<Rightarrow> nat \<Rightarrow> ptr list \<Rightarrow> nat \<Rightarrow> nat \<Rightarrow> ptr list option" where
  "slots_copy dst doff src soff n =
     (if soff + n \<le> length src \<and> doff + n \<le> length dst
      then Some (take doff dst @ take n (drop soff src) @ drop (doff + n) dst)
      else None)"

definition vect_memmove :: "ptr list \<Rightarrow> nat \<Rightarrow> nat \<Rightarrow> nat \<Rightarrow> ptr list option" where
  "vect_memmove xs doff soff n = slots_copy xs doff xs soff n"

text \<open>\<^verbatim>\<open>realloc\<close> of the slot array to \<open>n\<close> slots: the common prefix is kept.\<close>

definition slots_resize :: "nat \<Rightarrow> ptr list \<Rightarrow> ptr list" where
  "slots_resize n xs = take n xs @ replicate (n - length xs) NULL"

subsection \<open>The vector\<close>

text \<open>\<^verbatim>\<open>struct p_vector\<close>. The fields \<^verbatim>\<open>begin\<close> and \<^verbatim>\<open>end\<close> are \<open>vbegin\<close> and \<open>vend\<close>
  (both names are Isabelle keywords). \<open>lock\<close> is the recursive mutex, as the number of
  times the calling thread holds it. \<open>SfWpFunc\<close> is the custom wipe function, taken to
  act on the bytes of the item it is given.\<close>

record p_vector =
  cap_left :: nat
  cap_right :: nat
  vbegin :: nat
  prev_end :: nat
  vend :: nat
  data_size :: nat
  flags :: "property set"
  lock :: nat
  data :: "ptr list"
  init_capacity :: nat
  status :: "32 word"
  SfWpFunc :: "(byte list \<Rightarrow> nat \<Rightarrow> byte list) option"
  balance :: nat
  bottom :: nat
  lock_type :: int

subsection \<open>Thread safe functions\<close>

definition mutex_lock :: "p_vector \<Rightarrow> p_vector" where
  "mutex_lock v = v\<lparr>lock := Suc (lock v)\<rparr>"

definition mutex_unlock :: "p_vector \<Rightarrow> p_vector" where
  "mutex_unlock v = v\<lparr>lock := lock v - 1\<rparr>"

definition check_mutex_lock :: "world \<Rightarrow> p_vector \<Rightarrow> int \<Rightarrow> int \<times> p_vector" where
  "check_mutex_lock w v lt =
     (if lock_enabled w \<and> lt \<ge> lock_type v
      then (1, (mutex_lock v)\<lparr>lock_type := lt\<rparr>)
      else (0, v))"

definition check_mutex_unlock :: "world \<Rightarrow> p_vector \<Rightarrow> int \<Rightarrow> int \<times> p_vector" where
  "check_mutex_unlock w v lt =
     (if lock_enabled w \<and> lt = lock_type v
      then (1, mutex_unlock (v\<lparr>lock_type := 0\<rparr>))
      else (0, v))"

subsection \<open>Size and capacity\<close>

definition p_vect_capacity :: "p_vector \<Rightarrow> nat" where
  "p_vect_capacity v = cap_left v + cap_right v"

definition p_vect_size :: "p_vector \<Rightarrow> nat" where
  "p_vect_size v = isub (vend v) (vbegin v)"


definition p_item_safewipe :: "p_vector \<Rightarrow> ptr \<Rightarrow> world \<Rightarrow> world option" where
  "p_item_safewipe v item w =
     (if item \<noteq> NULL then
        (if status v AND ZVS_CUST_WIPE_ON = 0 then memset_zero item (data_size v) w
         else
           (case SfWpFunc v of
              None \<Rightarrow> None
            | Some f \<Rightarrow>
                (case mem w item of
                   None \<Rightarrow> None
                 | Some d \<Rightarrow> Some (w\<lparr>mem := (mem w)(item \<mapsto> f d (data_size v))\<rparr>))))
      else Some w)"

text \<open>The body of the loop of \<^verbatim>\<open>p_free_items\<close>, for the index \<open>j\<close>.\<close>

definition p_free_item :: "nat \<Rightarrow> p_vector \<times> world \<Rightarrow> (p_vector \<times> world) option" where
  "p_free_item j vw =
     (case vw of (v, w) \<Rightarrow>
        do {
          p \<leftarrow> slot_get (data v) (vbegin v + j);
          if p \<noteq> NULL then
            do {
              w1 \<leftarrow> (if ZV_SEC_WIPE \<in> flags v then p_item_safewipe v p w else Some w);
              if ZV_BYREF \<notin> flags v then
                do {
                  d \<leftarrow> slot_set (data v) (vbegin v + j) NULL;
                  Some (v\<lparr>data := d\<rparr>, free p w1)
                }
              else Some (v, w1)
            }
          else Some (v, w)
        })"

fun p_free_items_loop :: "nat list \<Rightarrow> p_vector \<times> world \<Rightarrow> (p_vector \<times> world) option" where
  "p_free_items_loop [] vw = Some vw"
| "p_free_items_loop (j # js) vw = do { vw1 \<leftarrow> p_free_item j vw; p_free_items_loop js vw1 }"

text \<open>The loop runs \<open>j\<close> from \<open>first + offset\<close> down to \<open>first\<close>.\<close>

definition p_free_items :: "p_vector \<Rightarrow> nat \<Rightarrow> nat \<Rightarrow> world \<Rightarrow> (p_vector \<times> world) option" where
  "p_free_items v first offset w =
     (if p_vect_size v = 0 then Some (v, w)
      else p_free_items_loop (rev [first ..< first + offset + 1]) (v, w))"

subsection \<open>Capacity management\<close>

definition p_vect_increase_capacity ::
  "p_vector \<Rightarrow> nat \<Rightarrow> world \<Rightarrow> (zvect_retval \<times> p_vector \<times> world) option" where
  "p_vect_increase_capacity v direction w =
     (if direction = 0 then
        (let new_capacity = cap_left v * 2 in
         case alloc_attempt w of
           (False, w1) \<Rightarrow> Some (ZVERR_OUTOFMEM, v, w1)
         | (True, w1) \<Rightarrow>
             (let nb = cap_left v;
                  ne = nb + isub (vend v) (vbegin v)
              in do {
                   new_data \<leftarrow> slots_copy (replicate (new_capacity + cap_right v) NULL) nb
                                 (data v) (vbegin v) (isub (vend v) (vbegin v));
                   Some (ZV_OK,
                         v\<lparr>data := new_data, cap_left := new_capacity, vend := ne, vbegin := nb\<rparr>,
                         w1)
                 }))
      else
        (let new_capacity = cap_right v * 2 in
         case alloc_attempt w of
           (False, w1) \<Rightarrow> Some (ZVERR_OUTOFMEM, v, w1)
         | (True, w1) \<Rightarrow>
             Some (ZV_OK,
                   v\<lparr>data := slots_resize (cap_left v + new_capacity) (data v),
                     cap_right := new_capacity\<rparr>,
                   w1)))"

definition p_vect_decrease_capacity ::
  "p_vector \<Rightarrow> nat \<Rightarrow> world \<Rightarrow> (zvect_retval \<times> p_vector \<times> world) option" where
  "p_vect_decrease_capacity v direction w =
     (if p_vect_capacity v \<le> init_capacity v then Some (ZV_OK, v, w)
      else if direction = 0 then
        (let nc0 = cap_left v div 2;
             nc1 = (if nc0 < init_capacity v div 2 then init_capacity v div 2 else nc0);
             new_capacity = max (p_vect_size v div 2) nc1
         in case alloc_attempt w of
              (False, w1) \<Rightarrow> Some (ZVERR_OUTOFMEM, v, w1)
            | (True, w1) \<Rightarrow>
                (let nb = new_capacity div 2;
                     ne = nb + isub (vend v) (vbegin v)
                 in do {
                      new_data \<leftarrow> slots_copy (replicate (new_capacity + cap_right v) NULL) nb
                                    (data v) (vbegin v) (isub (vend v) (vbegin v));
                      Some (ZV_OK,
                            v\<lparr>data := new_data, cap_left := new_capacity, vend := ne, vbegin := nb\<rparr>,
                            w1)
                    }))
      else
        (let nc0 = cap_right v div 2;
             nc1 = (if nc0 < init_capacity v div 2 then init_capacity v div 2 else nc0);
             new_capacity = max (p_vect_size v div 2) nc1
         in case alloc_attempt w of
              (False, w1) \<Rightarrow> Some (ZVERR_OUTOFMEM, v, w1)
            | (True, w1) \<Rightarrow>
                Some (ZV_OK,
                      v\<lparr>data := slots_resize (cap_left v + new_capacity) (data v),
                        cap_right := new_capacity\<rparr>,
                      w1)))"

subsection \<open>Storage primitives\<close>

definition p_vect_put_at ::
  "p_vector \<Rightarrow> ptr \<Rightarrow> nat \<Rightarrow> world \<Rightarrow> (zvect_retval \<times> p_vector \<times> world) option" where
  "p_vect_put_at v val i w =
     (if ZV_CIRCULAR \<notin> flags v \<and> i \<ge> p_vect_size v then Some (ZVERR_IDXOUTOFBOUND, v, w)
      else if ZV_CIRCULAR \<in> flags v \<and> i \<ge> p_vect_size v \<and> init_capacity v = 0 then None
      else
        (let idx = (if ZV_CIRCULAR \<in> flags v \<and> i \<ge> p_vect_size v
                    then i mod init_capacity v else i)
         in if ZV_BYREF \<in> flags v then
              do {
                temp \<leftarrow> slot_get (data v) (vbegin v + idx);
                d \<leftarrow> slot_set (data v) (vbegin v + idx) val;
                w1 \<leftarrow> (if ZV_SEC_WIPE \<in> flags v then memset_zero temp (data_size v) w
                        else Some w);
                Some (ZV_OK, v\<lparr>data := d\<rparr>, w1)
              }
            else
              do {
                p \<leftarrow> slot_get (data v) (vbegin v + idx);
                w1 \<leftarrow> p_vect_memcpy p val (data_size v) w;
                Some (ZV_OK, v, w1)
              }))"

text \<open>\<^verbatim>\<open>p_vect_add_at\<close> after its capacity check: the allocation of the new item, the
  shift of the slots, the store of the value and the update of \<^verbatim>\<open>begin\<close> or \<^verbatim>\<open>end\<close>
  (the \<^verbatim>\<open>#else\<close> branches of \<^verbatim>\<open>ZVECT_FULL_REENTRANT\<close>). \<open>vsize\<close> is the size read
  before the capacity check.\<close>

definition p_vect_add_at_store ::
  "p_vector \<Rightarrow> ptr \<Rightarrow> nat \<Rightarrow> nat \<Rightarrow> world \<Rightarrow> (zvect_retval \<times> p_vector \<times> world) option" where
  "p_vect_add_at_store v val idx vsize w =
     (let base = (if idx = 0 then isub (vbegin v) 1 else vbegin v) in
      do {
        (oom1, v1, w1) \<leftarrow>
          (if idx = 0 then
             (if ZV_BYREF \<notin> flags v then
                (case malloc (data_size v) w of
                   (p, wa) \<Rightarrow>
                     do { d \<leftarrow> slot_set (data v) base p; Some (p = NULL, v\<lparr>data := d\<rparr>, wa) })
              else Some (False, v, w))
           else if idx = vsize \<and> ZV_BYREF \<notin> flags v then
             (case malloc (data_size v) w of
                (p, wa) \<Rightarrow>
                  do {
                    d \<leftarrow> slot_set (data v) (base + vsize) p;
                    Some (p = NULL, v\<lparr>data := d\<rparr>, wa)
                  })
           else Some (False, v, w));
        if oom1 then Some (ZVERR_OUTOFMEM, v1, w1)
        else
          do {
            let array_changed = (idx < vsize \<and> idx \<noteq> 0);
            d2 \<leftarrow> (if array_changed
                    then vect_memmove (data v1) (base + (idx + 1)) (base + idx) (vsize - idx)
                    else Some (data v1));
            (oom2, v3, w3) \<leftarrow>
              (if array_changed \<and> ZV_BYREF \<notin> flags v then
                 (case malloc (data_size v) w1 of
                    (p, wa) \<Rightarrow>
                      do {
                        d \<leftarrow> slot_set d2 (base + idx) p;
                        Some (p = NULL, v1\<lparr>data := d\<rparr>, wa)
                      })
               else Some (False, v1\<lparr>data := d2\<rparr>, w1));
            if oom2 then Some (ZVERR_OUTOFMEM, v3, w3)
            else
              do {
                (v4, w4) \<leftarrow>
                  (if ZV_BYREF \<in> flags v then
                     do {
                       d \<leftarrow> slot_set (data v3) (base + idx) val;
                       Some (v3\<lparr>data := d\<rparr>, w3)
                     }
                   else
                     do {
                       p \<leftarrow> slot_get (data v3) (base + idx);
                       w5 \<leftarrow> p_vect_memcpy p val (data_size v) w3;
                       Some (v3, w5)
                     });
                Some (ZV_OK,
                      (if idx = 0 then v4\<lparr>prev_end := vsize, vbegin := base\<rparr>
                       else v4\<lparr>prev_end := vsize, vend := vend v4 + 1\<rparr>),
                      w4)
              }
          }
      })"

text \<open>The return value of \<^verbatim>\<open>p_vect_increase_capacity\<close> is ignored by the source.\<close>

definition p_vect_add_at ::
  "p_vector \<Rightarrow> ptr \<Rightarrow> nat \<Rightarrow> int \<Rightarrow> world \<Rightarrow> (zvect_retval \<times> p_vector \<times> world) option" where
  "p_vect_add_at v val i action w =
     (if ZV_CIRCULAR \<in> flags v then p_vect_put_at v val i w
      else
        (let vsize = p_vect_size v in
         if i > vsize \<and> action = 0 then Some (ZVERR_IDXOUTOFBOUND, v, w)
         else
           (let idx = (if i > vsize then isub vsize 1 else i) in
            do {
              (r0, v1, w1) \<leftarrow>
                (if idx = 0 then
                   (if vbegin v = 0 \<or> cap_left v = 1 then p_vect_increase_capacity v 0 w
                    else Some (ZV_OK, v, w))
                 else
                   (if vend v \<ge> cap_right v then p_vect_increase_capacity v 1 w
                    else Some (ZV_OK, v, w)));
              p_vect_add_at_store v1 val idx vsize w1
            })))"

text \<open>\<^verbatim>\<open>p_vect_remove_at\<close> after its index checks. The result of the \<^verbatim>\<open>malloc\<close> for the
  copy handed to the caller is not checked by the source; the copy into a null pointer is
  a fault. The return value of \<^verbatim>\<open>p_vect_decrease_capacity\<close> is ignored.\<close>

definition p_vect_remove_at_take ::
  "p_vector \<Rightarrow> nat \<Rightarrow> nat \<Rightarrow> world \<Rightarrow> (zvect_retval \<times> ptr \<times> p_vector \<times> world) option" where
  "p_vect_remove_at_take v idx vsize w =
     (let base = vbegin v in
      do {
        (item, w1) \<leftarrow>
          (if ZV_BYREF \<in> flags v then
             do { p \<leftarrow> slot_get (data v) (base + idx); Some (p, w) }
           else
             (case malloc (data_size v) w of
                (it, wa) \<Rightarrow>
                  do {
                    p \<leftarrow> slot_get (data v) (base + idx);
                    wb \<leftarrow> p_vect_memcpy it p (data_size v) wa;
                    wc \<leftarrow> (if ZV_SEC_WIPE \<in> flags v then p_item_safewipe v p wb else Some wb);
                    Some (it, wc)
                  }));
        (array_changed, v2, w2) \<leftarrow>
          (if idx \<noteq> 0 then
             (if idx < vsize - 1 \<and> vsize > 0 then
                do {
                  p \<leftarrow> slot_get (data v) (base + idx);
                  d \<leftarrow> vect_memmove (data v) (base + idx) (base + (idx + 1)) (vsize - idx);
                  Some (True, v\<lparr>data := d\<rparr>, free p w1)
                }
              else Some (False, v, w1))
           else
             (if base < vend v then
                do {
                  p \<leftarrow> slot_get (data v) base;
                  Some (True, v, (if p \<noteq> NULL then free p w1 else w1))
                }
              else Some (False, v, w1)));
        (v3, w3) \<leftarrow>
          (if ZV_BYREF \<notin> flags v \<and> \<not> array_changed then p_free_items v2 (vsize - 1) 0 w2
           else Some (v2, w2));
        if ZV_CIRCULAR \<notin> flags v then
          (let v4 = v3\<lparr>prev_end := vsize\<rparr>;
               v5 = (if idx \<noteq> 0 then
                       (if vend v4 > vbegin v4 then v4\<lparr>vend := vend v4 - 1\<rparr>
                        else v4\<lparr>vend := vbegin v4\<rparr>)
                     else
                       (if vbegin v4 < vend v4 then v4\<lparr>vbegin := vbegin v4 + 1\<rparr>
                        else v4\<lparr>vbegin := vend v4\<rparr>))
           in if 4 * vsize < p_vect_capacity v5 then
                do {
                  (r, v6, w6) \<leftarrow> p_vect_decrease_capacity v5 idx w3;
                  Some (ZV_OK, item, v6, w6)
                }
              else Some (ZV_OK, item, v5, w3))
        else Some (ZV_OK, item, v3, w3)
      })"

text \<open>\<open>item\<close> is the value of \<^verbatim>\<open>*item\<close> on entry; the result carries its value on
  return.\<close>

definition p_vect_remove_at ::
  "p_vector \<Rightarrow> nat \<Rightarrow> int \<Rightarrow> ptr \<Rightarrow> world \<Rightarrow> (zvect_retval \<times> ptr \<times> p_vector \<times> world) option" where
  "p_vect_remove_at v i action item w =
     (let vsize = p_vect_size v in
      if vsize = 0 then Some (ZV_OK, item, v, w)
      else if ZV_CIRCULAR \<notin> flags v \<and> i \<ge> vsize \<and> action = 0
      then Some (ZVERR_IDXOUTOFBOUND, item, v, w)
      else
        (let idx = (if ZV_CIRCULAR \<notin> flags v then (if i \<ge> vsize then vsize - 1 else i)
                    else (if i \<ge> vsize then i mod vsize else i))
         in if vbegin v > vend v then Some (ZVERR_VECTCORRUPTED, item, v, w)
            else p_vect_remove_at_take v idx vsize w))"


subsection \<open>Creation\<close>

text \<open>\<^verbatim>\<open>ZVECT_INITIAL_CAPACITY\<close> and \<^verbatim>\<open>ZVECT_DEFAULT_DATA_SIZE\<close> come from a header that is
  not among the sources; they are the first two arguments. \<open>Inl\<close> is the error code
  handed to \<^verbatim>\<open>p_throw_error\<close>, which ends the process. The argument \<^verbatim>\<open>init_capacity\<close> is
  a \<^verbatim>\<open>size_t\<close>; the two tests read it as it is, and the initialisation of the
  \<^verbatim>\<open>zvect_index capacity\<close> narrows it to the index width.\<close>

definition vect_create ::
  "nat \<Rightarrow> nat \<Rightarrow> nat \<Rightarrow> nat \<Rightarrow> property set \<Rightarrow> world \<Rightarrow> zvect_retval + (p_vector \<times> world)" where
  "vect_create ZVECT_INITIAL_CAPACITY ZVECT_DEFAULT_DATA_SIZE init_cap item_size properties w =
     (let w0 = (if p_init_state w = 0 then w\<lparr>p_init_state := 1\<rparr> else w) in
      case alloc_attempt w0 of
        (False, w1) \<Rightarrow> Inl ZVERR_OUTOFMEM
      | (True, w1) \<Rightarrow>
          (let capacity = (if init_cap = 0 then as_zvect_index init_cap
                           else if init_cap \<le> 4 then 4
                           else as_zvect_index init_cap);
               cl = (if init_cap = 0 then ZVECT_INITIAL_CAPACITY div 2 else capacity div 2);
               cr = (if init_cap = 0 then ZVECT_INITIAL_CAPACITY div 2 else capacity div 2);
               v = \<lparr>cap_left = cl, cap_right = cr, vbegin = 1, prev_end = 0, vend = 1,
                    data_size = (if item_size = 0 then ZVECT_DEFAULT_DATA_SIZE else item_size),
                    flags = properties, lock = 0, data = [], init_capacity = cl + cr,
                    status = 0, SfWpFunc = None, balance = 0, bottom = 0, lock_type = 0\<rparr>;
               v1 = (if ZV_CIRCULAR \<in> flags v
                     then v\<lparr>vend := isub (cap_right v) 1, vbegin := isub (cap_left v) 1\<rparr>
                     else v)
           in case alloc_attempt w1 of
                (False, w2) \<Rightarrow> Inl ZVERR_OUTOFMEM
              | (True, w2) \<Rightarrow> Inr (v1\<lparr>data := replicate (p_vect_capacity v1) NULL\<rparr>, w2)))"

subsection \<open>Public storage functions\<close>

text \<open>Every public function below returns the code it hands to \<^verbatim>\<open>p_throw_error\<close>
  (\<open>ZV_OK\<close> when it does not call it) with the state at that point; a code other than
  \<open>ZV_OK\<close> means that the process has ended there. The vector argument is never the null
  pointer, so \<^verbatim>\<open>p_vect_check\<close> always passes.\<close>

definition vect_push :: "p_vector \<Rightarrow> ptr \<Rightarrow> world \<Rightarrow> (zvect_retval \<times> p_vector \<times> world) option" where
  "vect_push v val w =
     (case check_mutex_lock w v 1 of
        (lock_owner, v1) \<Rightarrow>
          do {
            (rval, v2, w2) \<leftarrow> p_vect_add_at v1 val (p_vect_size v1) (- 1) w;
            Some (rval, (if lock_owner \<noteq> 0 then snd (check_mutex_unlock w2 v2 1) else v2), w2)
          })"

definition vect_add_at ::
  "p_vector \<Rightarrow> ptr \<Rightarrow> nat \<Rightarrow> world \<Rightarrow> (zvect_retval \<times> p_vector \<times> world) option" where
  "vect_add_at v val i w =
     (case check_mutex_lock w v 1 of
        (lock_owner, v1) \<Rightarrow>
          do {
            (rval, v2, w2) \<leftarrow> p_vect_add_at v1 val i 0 w;
            Some (rval, (if lock_owner \<noteq> 0 then snd (check_mutex_unlock w2 v2 1) else v2), w2)
          })"

definition vect_add_front ::
  "p_vector \<Rightarrow> ptr \<Rightarrow> world \<Rightarrow> (zvect_retval \<times> p_vector \<times> world) option" where
  "vect_add_front v val w =
     (case check_mutex_lock w v 1 of
        (lock_owner, v1) \<Rightarrow>
          do {
            (rval, v2, w2) \<leftarrow> p_vect_add_at v1 val 0 (- 1) w;
            Some (rval, (if lock_owner \<noteq> 0 then snd (check_mutex_unlock w2 v2 1) else v2), w2)
          })"

definition vect_pop :: "p_vector \<Rightarrow> world \<Rightarrow> (zvect_retval \<times> ptr \<times> p_vector \<times> world) option" where
  "vect_pop v w =
     (case check_mutex_lock w v 1 of
        (lock_owner, v1) \<Rightarrow>
          do {
            (rval, item, v2, w2) \<leftarrow> p_vect_remove_at v1 (isub (p_vect_size v1) 1) (- 1) NULL w;
            Some (rval, item,
                  (if lock_owner \<noteq> 0 then snd (check_mutex_unlock w2 v2 1) else v2), w2)
          })"

definition vect_remove :: "p_vector \<Rightarrow> world \<Rightarrow> (zvect_retval \<times> ptr \<times> p_vector \<times> world) option" where
  "vect_remove v w =
     (case check_mutex_lock w v 1 of
        (lock_owner, v1) \<Rightarrow>
          do {
            (rval, item, v2, w2) \<leftarrow> p_vect_remove_at v1 (isub (p_vect_size v1) 1) (- 1) NULL w;
            Some (rval, item,
                  (if lock_owner \<noteq> 0 then snd (check_mutex_unlock w2 v2 1) else v2), w2)
          })"

definition vect_remove_at ::
  "p_vector \<Rightarrow> nat \<Rightarrow> world \<Rightarrow> (zvect_retval \<times> ptr \<times> p_vector \<times> world) option" where
  "vect_remove_at v i w =
     (case check_mutex_lock w v 1 of
        (lock_owner, v1) \<Rightarrow>
          do {
            (rval, item, v2, w2) \<leftarrow> p_vect_remove_at v1 i 0 NULL w;
            Some (rval, item,
                  (if lock_owner \<noteq> 0 then snd (check_mutex_unlock w2 v2 1) else v2), w2)
          })"

definition vect_remove_front ::
  "p_vector \<Rightarrow> world \<Rightarrow> (zvect_retval \<times> ptr \<times> p_vector \<times> world) option" where
  "vect_remove_front v w =
     (case check_mutex_lock w v 1 of
        (lock_owner, v1) \<Rightarrow>
          do {
            (rval, item, v2, w2) \<leftarrow> p_vect_remove_at v1 0 0 NULL w;
            Some (rval, item,
                  (if lock_owner \<noteq> 0 then snd (check_mutex_unlock w2 v2 1) else v2), w2)
          })"

subsection \<open>Rotation\<close>

definition vect_rotate_left ::
  "p_vector \<Rightarrow> nat \<Rightarrow> world \<Rightarrow> (zvect_retval \<times> p_vector \<times> world) option" where
  "vect_rotate_left v i w =
     (case check_mutex_lock w v 1 of
        (lock_owner, v1) \<Rightarrow>
          do {
            (rval, v2, w2) \<leftarrow>
              (if i = 0 \<or> i = p_vect_size v1 then Some (ZV_OK, v1, w)
               else if i > p_vect_size v1 then Some (ZVERR_IDXOUTOFBOUND, v1, w)
               else if i = 1 then
                 do {
                   temp \<leftarrow> slot_get (data v1) 0;
                   d1 \<leftarrow> vect_memmove (data v1) 0 1 (isub (p_vect_size v1) 1);
                   d2 \<leftarrow> slot_set d1 (isub (p_vect_size v1) 1) temp;
                   Some (ZV_OK, v1\<lparr>data := d2\<rparr>, w)
                 }
               else
                 (case alloc_attempt w of
                    (False, wa) \<Rightarrow> Some (ZVERR_OUTOFMEM, v1, wa)
                  | (True, wa) \<Rightarrow>
                      do {
                        new_data \<leftarrow> slots_copy (replicate (p_vect_capacity v1) NULL) (vbegin v1)
                                      (data v1) (vbegin v1) i;
                        d1 \<leftarrow> vect_memmove (data v1) (vbegin v1) (vbegin v1 + i)
                                (isub (p_vect_size v1) i);
                        d2 \<leftarrow> slots_copy d1 (vbegin v1 + isub (p_vect_size v1) i)
                                new_data (vbegin v1) i;
                        Some (ZV_OK, v1\<lparr>data := d2\<rparr>, wa)
                      }));
            Some (rval, (if lock_owner \<noteq> 0 then snd (check_mutex_unlock w2 v2 1) else v2), w2)
          })"

definition vect_rotate_right ::
  "p_vector \<Rightarrow> nat \<Rightarrow> world \<Rightarrow> (zvect_retval \<times> p_vector \<times> world) option" where
  "vect_rotate_right v i w =
     (case check_mutex_lock w v 1 of
        (lock_owner, v1) \<Rightarrow>
          do {
            (rval, v2, w2) \<leftarrow>
              (if i = 0 \<or> i = p_vect_size v1 then Some (ZV_OK, v1, w)
               else if i > p_vect_size v1 then Some (ZVERR_IDXOUTOFBOUND, v1, w)
               else if i = 1 then
                 do {
                   temp \<leftarrow> slot_get (data v1) (isub (vbegin v1 + p_vect_size v1) 1);
                   d1 \<leftarrow> vect_memmove (data v1) (vbegin v1 + 1) (vbegin v1)
                           (isub (p_vect_size v1) 1);
                   d2 \<leftarrow> slot_set d1 (vbegin v1) temp;
                   Some (ZV_OK, v1\<lparr>data := d2\<rparr>, w)
                 }
               else
                 (case alloc_attempt w of
                    (False, wa) \<Rightarrow> Some (ZVERR_OUTOFMEM, v1, wa)
                  | (True, wa) \<Rightarrow>
                      do {
                        new_data \<leftarrow> slots_copy (replicate (p_vect_capacity v1) NULL) (vbegin v1)
                                      (data v1) (vbegin v1 + isub (p_vect_size v1) i) i;
                        d1 \<leftarrow> vect_memmove (data v1) (vbegin v1 + i) (vbegin v1)
                                (isub (p_vect_size v1) i);
                        d2 \<leftarrow> slots_copy d1 (vbegin v1) new_data (vbegin v1) i;
                        Some (ZV_OK, v1\<lparr>data := d2\<rparr>, wa)
                      }));
            Some (rval, (if lock_owner \<noteq> 0 then snd (check_mutex_unlock w2 v2 1) else v2), w2)
          })"


subsection \<open>Adaptive binary search\<close>

text \<open>The comparator is a function on element pointers. The three loops before the final
  scan are \<open>p_abs_expand_up\<close> (the \<^verbatim>\<open>while (1)\<close> after \<^verbatim>\<open>key >= array[bot]\<close>),
  \<open>p_abs_expand_down\<close> (the other \<^verbatim>\<open>while (1)\<close>) and \<open>p_abs_monobound\<close>; each returns
  the values of \<^verbatim>\<open>bot\<close> and \<^verbatim>\<open>top\<close> on exit. With \<^verbatim>\<open>top == 0\<close> and no exit taken the
  expanding loops of the source never end, which is \<open>None\<close> here as well.\<close>

definition p_vect_elem :: "p_vector \<Rightarrow> nat \<Rightarrow> ptr option" where
  "p_vect_elem v k = slot_get (data v) (vbegin v + k)"

function p_abs_expand_up ::
  "(ptr \<Rightarrow> ptr \<Rightarrow> int) \<Rightarrow> ptr \<Rightarrow> p_vector \<Rightarrow> nat \<Rightarrow> nat \<Rightarrow> (nat \<times> nat) option" where
  "p_abs_expand_up f1 key v bt tp =
     (if bt + tp \<ge> p_vect_size v then Some (bt, isub (p_vect_size v) bt)
      else
        do {
          e \<leftarrow> p_vect_elem v (bt + tp);
          if f1 key e < 0 then Some (bt, tp)
          else if tp = 0 then None
          else p_abs_expand_up f1 key v (bt + tp) (tp * 2)
        })"
  by pat_completeness auto
termination
  by (relation "measure (\<lambda>(f1, key, v, bt, tp). p_vect_size v - bt)") auto

function p_abs_expand_down ::
  "(ptr \<Rightarrow> ptr \<Rightarrow> int) \<Rightarrow> ptr \<Rightarrow> p_vector \<Rightarrow> nat \<Rightarrow> nat \<Rightarrow> (nat \<times> nat) option" where
  "p_abs_expand_down f1 key v bt tp =
     (if bt < tp then Some (0, bt)
      else
        do {
          e \<leftarrow> p_vect_elem v (bt - tp);
          if f1 key e \<ge> 0 then Some (bt - tp, tp)
          else if tp = 0 then None
          else p_abs_expand_down f1 key v (bt - tp) (tp * 2)
        })"
  by pat_completeness auto
termination
  by (relation "measure (\<lambda>(f1, key, v, bt, tp). bt)") auto

function p_abs_monobound ::
  "(ptr \<Rightarrow> ptr \<Rightarrow> int) \<Rightarrow> ptr \<Rightarrow> p_vector \<Rightarrow> nat \<Rightarrow> nat \<Rightarrow> (nat \<times> nat) option" where
  "p_abs_monobound f1 key v bt tp =
     (if tp > 3 then
        do {
          e \<leftarrow> p_vect_elem v (bt + tp div 2);
          p_abs_monobound f1 key v (if f1 key e \<ge> 0 then bt + tp div 2 else bt) (tp - tp div 2)
        }
      else Some (bt, tp))"
  by pat_completeness auto
termination
  by (relation "measure (\<lambda>(f1, key, v, bt, tp). tp)") auto

text \<open>The final scan \<^verbatim>\<open>while (top)\<close>: the result is the return value and \<^verbatim>\<open>*item_index\<close>.\<close>

fun p_abs_scan ::
  "(ptr \<Rightarrow> ptr \<Rightarrow> int) \<Rightarrow> ptr \<Rightarrow> p_vector \<Rightarrow> nat \<Rightarrow> nat \<Rightarrow> (bool \<times> nat) option" where
  "p_abs_scan f1 key v bt 0 = Some (False, bt + 0)"
| "p_abs_scan f1 key v bt (Suc tp) =
     do {
       e \<leftarrow> p_vect_elem v (bt + tp);
       if f1 key e = 0 then Some (True, bt + tp)
       else if f1 key e > 0 then Some (False, bt + (tp + 1))
       else p_abs_scan f1 key v bt tp
     }"

definition p_adaptive_binary_search ::
  "p_vector \<Rightarrow> ptr \<Rightarrow> (ptr \<Rightarrow> ptr \<Rightarrow> int) \<Rightarrow> (bool \<times> nat \<times> p_vector) option" where
  "p_adaptive_binary_search v key f1 =
     do {
       (bt, tp) \<leftarrow>
         (if balance v \<ge> 32 \<or> p_vect_size v \<le> 64 then Some (0, p_vect_size v)
          else
            do {
              e \<leftarrow> p_vect_elem v (bottom v);
              if f1 key e \<ge> 0 then p_abs_expand_up f1 key v (bottom v) 32
              else p_abs_expand_down f1 key v (bottom v) 32
            });
       (bt2, tp2) \<leftarrow> p_abs_monobound f1 key v bt tp;
       let v1 = v\<lparr>balance := (if bottom v > bt2 then bottom v - bt2 else bt2 - bottom v),
                  bottom := bt2\<rparr>;
       (found, idx) \<leftarrow> p_abs_scan f1 key v1 bt2 tp2;
       Some (found, idx, v1)
     }"

text \<open>\<open>f1 = None\<close> is the null function pointer; \<open>item_index\<close> is the value of
  \<^verbatim>\<open>*item_index\<close> on entry, the result carries its value on return.\<close>

definition vect_bsearch ::
  "p_vector \<Rightarrow> ptr \<Rightarrow> (ptr \<Rightarrow> ptr \<Rightarrow> int) option \<Rightarrow> nat \<Rightarrow> (bool \<times> nat \<times> p_vector) option" where
  "vect_bsearch v key f1 item_index =
     (case f1 of
        None \<Rightarrow> Some (False, item_index, v)
      | Some f \<Rightarrow>
          if key = NULL \<or> p_vect_size v = 0 then Some (False, item_index, v)
          else
            do {
              (found, idx, v1) \<leftarrow> p_adaptive_binary_search v key f;
              if found then Some (True, idx, v1) else Some (False, 0, v1)
            })"

subsection \<open>Apply\<close>

text \<open>The function applied to the elements acts on an environment \<open>'e\<close>; \<open>None\<close> is the
  null function pointer. The loops call it on the slots of the given indices, in the
  order of the list.\<close>

fun p_apply_loop :: "(ptr \<Rightarrow> 'e \<Rightarrow> 'e) \<Rightarrow> p_vector \<Rightarrow> nat list \<Rightarrow> 'e \<Rightarrow> 'e option" where
  "p_apply_loop f v [] e = Some e"
| "p_apply_loop f v (i # js) e =
     do { p \<leftarrow> slot_get (data v) (vbegin v + i); p_apply_loop f v js (f p e) }"

text \<open>\<^verbatim>\<open>for (i = p_vect_size(v); i--;)\<close> visits \<open>size - 1\<close> down to \<open>0\<close>.\<close>

definition vect_apply ::
  "p_vector \<Rightarrow> (ptr \<Rightarrow> 'e \<Rightarrow> 'e) option \<Rightarrow> world \<Rightarrow> 'e \<Rightarrow> (zvect_retval \<times> p_vector \<times> 'e) option" where
  "vect_apply v f w e =
     (case check_mutex_lock w v 1 of
        (lock_owner, v1) \<Rightarrow>
          do {
            e1 \<leftarrow> (case f of
                     None \<Rightarrow> Some e
                   | Some g \<Rightarrow> p_apply_loop g v1 (rev [0 ..< p_vect_size v1]) e);
            Some (ZV_OK, (if lock_owner \<noteq> 0 then snd (check_mutex_unlock w v1 1) else v1), e1)
          })"

text \<open>\<^verbatim>\<open>for (i = start; i <= end; i++)\<close> visits \<open>start\<close> up to \<open>end\<close>, nothing when
  \<open>end < start\<close>.\<close>

definition vect_apply_range ::
  "p_vector \<Rightarrow> (ptr \<Rightarrow> 'e \<Rightarrow> 'e) option \<Rightarrow> nat \<Rightarrow> nat \<Rightarrow> world \<Rightarrow> 'e
     \<Rightarrow> (zvect_retval \<times> p_vector \<times> 'e) option" where
  "vect_apply_range v f x y w e =
     (case check_mutex_lock w v 1 of
        (lock_owner, v1) \<Rightarrow>
          do {
            (rval, e1) \<leftarrow>
              (case f of
                 None \<Rightarrow> Some (ZV_OK, e)
               | Some g \<Rightarrow>
                   if x > p_vect_size v1 \<or> y > p_vect_size v1 then Some (ZVERR_IDXOUTOFBOUND, e)
                   else
                     (let start = (if x > y then x else y);
                          end_idx = (if x > y then y else x)
                      in do {
                           e2 \<leftarrow> p_apply_loop g v1 [start ..< end_idx + 1] e;
                           Some (ZV_OK, e2)
                         }));
            Some (rval, (if lock_owner \<noteq> 0 then snd (check_mutex_unlock w v1 1) else v1), e1)
          })"

subsection \<open>Insertion of a range\<close>

text \<open>The loop of \<^verbatim>\<open>vect_insert\<close> over the indices \<open>i\<close> of \<open>v2\<close>, with \<open>pos = s1 + j\<close>.
  \<^verbatim>\<open>vect_add_at\<close> ends the process when it fails, and so does the loop: the result then
  carries the code and the state in which the process ended. The two vectors are distinct
  objects.\<close>

fun vect_insert_loop ::
  "p_vector \<Rightarrow> nat list \<Rightarrow> nat \<Rightarrow> p_vector \<Rightarrow> world \<Rightarrow> (zvect_retval \<times> p_vector \<times> world) option" where
  "vect_insert_loop v2 [] pos v1 w = Some (ZV_OK, v1, w)"
| "vect_insert_loop v2 (i # js) pos v1 w =
     do {
       p \<leftarrow> slot_get (data v2) (vbegin v2 + i);
       (r, v1a, wa) \<leftarrow> vect_add_at v1 p pos w;
       if r \<noteq> ZV_OK then Some (r, v1a, wa)
       else vect_insert_loop v2 js (pos + 1) v1a wa
     }"

text \<open>The bound \<^verbatim>\<open>s2 + ee2\<close> of \<^verbatim>\<open>for (i = s2; i <= s2 + ee2; i++, j++)\<close> is a \<^verbatim>\<open>zvect_index\<close>
  and wraps. When it is the greatest index the test never fails: the loop ends only inside
  \<^verbatim>\<open>vect_add_at\<close> or in a fault. An error found by \<^verbatim>\<open>vect_insert\<close> itself is raised
  after the lock has been released; when the process ends inside \<^verbatim>\<open>vect_add_at\<close> the lock
  taken by \<^verbatim>\<open>vect_insert\<close> is still held.\<close>

definition vect_insert ::
  "p_vector \<Rightarrow> p_vector \<Rightarrow> nat \<Rightarrow> nat \<Rightarrow> nat \<Rightarrow> world \<Rightarrow> (zvect_retval \<times> p_vector \<times> world) option" where
  "vect_insert v1 v2 s2 e2 s1 w =
     (case check_mutex_lock w v1 2 of
        (lock_owner, v1a) \<Rightarrow>
          if data_size v1a \<noteq> data_size v2
          then Some (ZVERR_VECTDATASIZE,
                     (if lock_owner \<noteq> 0 then snd (check_mutex_unlock w v1a 2) else v1a), w)
          else if e2 > p_vect_size v2 \<or> s2 > p_vect_size v2
          then Some (ZVERR_IDXOUTOFBOUND,
                     (if lock_owner \<noteq> 0 then snd (check_mutex_unlock w v1a 2) else v1a), w)
          else
            (let ee2 = (if e2 = 0 then isub (isub (p_vect_size v2) 1) s2 else e2);
                 last_idx = iadd s2 ee2
             in do {
                  (rval, v1b, w1) \<leftarrow>
                    vect_insert_loop v2 [s2 ..< last_idx + 1] s1 v1a w;
                  if rval \<noteq> ZV_OK then Some (rval, v1b, w1)
                  else if as_zvect_index (last_idx + 1) = 0 then None
                  else Some (ZV_OK,
                             (if lock_owner \<noteq> 0 then snd (check_mutex_unlock w1 v1b 2)
                              else v1b),
                             w1)
                }))"

subsection \<open>Observations and example states\<close>

text \<open>The element sequence of a vector: the slots of the live range \<^verbatim>\<open>[begin, end)\<close>, as
  far as they lie in the slot array.\<close>

definition vect_elements :: "p_vector \<Rightarrow> ptr list" where
  "vect_elements v = take (p_vect_size v) (drop (vbegin v) (data v))"

text \<open>A world in which the caller owns four 4-byte items at the addresses 100 to 103,
  nothing has been freed, every allocation succeeds and locking is enabled.\<close>

definition world0 :: world where
  "world0 =
     \<lparr>mem = [100 \<mapsto> [1, 2, 3, 4], 101 \<mapsto> [5, 6, 7, 8], 102 \<mapsto> [9, 9, 9, 9],
             103 \<mapsto> [7, 7, 7, 7]],
      freed = [], next_ptr = 1, alloc_plan = [], lock_enabled = True, p_init_state = 0\<rparr>"

text \<open>The vector that \<^verbatim>\<open>vect_create(init_cap, 4, properties)\<close> returns (with the header's
  defaults taken as 8 and 4), and the vector of initial capacity 8 after \<^verbatim>\<open>vect_push\<close> of
  the caller's items 100, 101 and 102.\<close>

definition created :: "nat \<Rightarrow> property set \<Rightarrow> world \<Rightarrow> (p_vector \<times> world) option" where
  "created init_cap properties w =
     (case vect_create 8 4 init_cap 4 properties w of
        Inl e \<Rightarrow> None
      | Inr vw \<Rightarrow> Some vw)"

definition pushed3 :: "property set \<Rightarrow> world \<Rightarrow> (p_vector \<times> world) option" where
  "pushed3 properties w =
     do {
       (v0, w0) \<leftarrow> created 8 properties w;
       (r1, v1, w1) \<leftarrow> vect_push v0 100 w0;
       (r2, v2, w2) \<leftarrow> vect_push v1 101 w1;
       (r3, v3, w3) \<leftarrow> vect_push v2 102 w2;
       Some (v3, w3)
     }"

text \<open>\<^verbatim>\<open>vect_push(v, x)\<close> for each \<open>x\<close> of a list in turn, and \<open>n\<close> calls of
  \<^verbatim>\<open>vect_remove_front(v)\<close>; a call that ends the process ends the sequence with \<open>None\<close>.\<close>

fun push_all :: "ptr list \<Rightarrow> p_vector \<times> world \<Rightarrow> (p_vector \<times> world) option" where
  "push_all [] vw = Some vw"
| "push_all (x # xs) vw =
     do {
       (r, v1, w1) \<leftarrow> vect_push (fst vw) x (snd vw);
       if r \<noteq> ZV_OK then None else push_all xs (v1, w1)
     }"

fun remove_fronts :: "nat \<Rightarrow> p_vector \<times> world \<Rightarrow> (p_vector \<times> world) option" where
  "remove_fronts 0 vw = Some vw"
| "remove_fronts (Suc n) vw =
     do {
       (r, item, v1, w1) \<leftarrow> vect_remove_front (fst vw) (snd vw);
       if r \<noteq> ZV_OK then None else remove_fronts n (v1, w1)
     }"

subsection \<open>Sorted vectors and insertion indices\<close>

text \<open>A comparator is valid when its sign is antisymmetric and \<open>\<le>\<close> under it is transitive.
  \<open>k\<close> is the insertion index of \<open>key\<close> in \<open>xs\<close> when \<open>key\<close> is greater than the first
  \<open>k\<close> elements and less than the others.\<close>

definition valid_comparator :: "(ptr \<Rightarrow> ptr \<Rightarrow> int) \<Rightarrow> bool" where
  "valid_comparator f \<longleftrightarrow>
     (\<forall>a b. (f a b < 0) = (f b a > 0)) \<and> (\<forall>a b. (f a b = 0) = (f b a = 0)) \<and>
     (\<forall>a b c. f a b \<le> 0 \<and> f b c \<le> 0 \<longrightarrow> f a c \<le> 0)"

definition is_insertion_index :: "(ptr \<Rightarrow> ptr \<Rightarrow> int) \<Rightarrow> ptr \<Rightarrow> ptr list \<Rightarrow> nat \<Rightarrow> bool" where
  "is_insertion_index f key xs k \<longleftrightarrow>
     k \<le> length xs \<and> list_all (\<lambda>x. f key x > 0) (take k xs)
     \<and> list_all (\<lambda>x. f key x < 0) (drop k xs)"

text \<open>The invariant of the search loops on \<^verbatim>\<open>bot\<close> and \<^verbatim>\<open>top\<close>: the window
  \<^verbatim>\<open>[bot, bot + top)\<close> lies in the vector, the key is not below the element at a non-zero
  \<^verbatim>\<open>bot\<close>, and it is below every element from \<^verbatim>\<open>bot + top\<close> on.\<close>

definition bs_inv :: "(ptr \<Rightarrow> ptr \<Rightarrow> int) \<Rightarrow> ptr \<Rightarrow> ptr list \<Rightarrow> nat \<Rightarrow> nat \<Rightarrow> bool" where
  "bs_inv f key xs bt tp \<longleftrightarrow>
     bt + tp \<le> length xs \<and> (0 < bt \<longrightarrow> bt < length xs \<and> f key (xs ! bt) \<ge> 0) \<and>
     (\<forall>i. bt + tp \<le> i \<and> i < length xs \<longrightarrow> f key (xs ! i) < 0)"

definition key_mono :: "(ptr \<Rightarrow> ptr \<Rightarrow> int) \<Rightarrow> ptr \<Rightarrow> ptr list \<Rightarrow> bool" where
  "key_mono f key xs \<longleftrightarrow>
     (\<forall>i j. i \<le> j \<and> j < length xs \<and> f key (xs ! j) \<ge> 0 \<longrightarrow> f key (xs ! i) \<ge> 0)"

definition elems_of :: "p_vector \<Rightarrow> ptr list \<Rightarrow> bool" where
  "elems_of v xs \<longleftrightarrow>
     p_vect_size v = length xs \<and> (\<forall>k < length xs. p_vect_elem v k = Some (xs ! k))"

text \<open>A comparator that orders pointers by their value, and the by-reference vector
  holding 1, 2, 3, 5, 8, 9 after six calls of \<^verbatim>\<open>vect_push\<close>.\<close>

definition cmp_ptr :: "ptr \<Rightarrow> ptr \<Rightarrow> int" where
  "cmp_ptr a b = int a - int b"

definition sorted6 :: p_vector where
  "sorted6 =
     fst (the (do { vw \<leftarrow> created 8 {ZV_BYREF} world0; push_all [1, 2, 3, 5, 8, 9] vw }))"

section \<open>Properties\<close>

subsection \<open>Index arithmetic\<close>

lemma low_bits_mod: "low_bits n a = a mod 2 ^ n"
proof (induction n arbitrary: a)
  case 0
  show ?case by simp
next
  case (Suc n)
  have "a mod (2 * 2 ^ n) = a mod 2 + 2 * (a div 2 mod 2 ^ n)"
    by (simp add: mod_mult2_eq)
  with Suc show ?case by simp
qed

lemma as_zvect_index_mod: "as_zvect_index a = a mod zvect_index_range"
  by (simp add: as_zvect_index_def low_bits_mod zvect_index_range_def)

lemma as_zvect_index_8 [simp]: "as_zvect_index 8 = 8"
  by (simp add: as_zvect_index_mod zvect_index_range_def)

subsection \<open>Locking\<close>

text \<open>C9, counterexample. With locking switched off for the process (\<^verbatim>\<open>vect_lock_disable\<close>)
  an acquisition at priority 3 on an unlocked vector does not succeed, although
  \<open>3 \<ge> lock_type\<close>: the claim's "if and only if" fails in that direction.\<close>

theorem check_mutex_lock_disabled_counterexample:
  "\<not> (fst (check_mutex_lock (world0\<lparr>lock_enabled := False\<rparr>)
              (fst (the (created 8 {} world0))) 3) \<noteq> 0
       \<longleftrightarrow> 3 \<ge> lock_type (fst (the (created 8 {} world0))))"
  by (simp add: check_mutex_lock_def created_def vect_create_def world0_def alloc_attempt_def
      p_vect_capacity_def)

text \<open>C9, amended. While locking is enabled, an acquisition at priority \<open>p\<close> succeeds if and
  only if \<open>p \<ge> lock_type\<close>; on success it takes the mutex and sets \<open>lock_type = p\<close>. A
  release at priority \<open>p\<close> takes effect if and only if \<open>p = lock_type\<close>; it then sets
  \<open>lock_type = 0\<close> and unlocks the mutex. While locking is disabled neither call succeeds.
  A call that does not succeed leaves the vector as it is.\<close>

theorem check_mutex_priority_admission:
  assumes "p \<in> {1, 2, 3}"
  shows "(fst (check_mutex_lock w v p) \<noteq> 0 \<longleftrightarrow> lock_enabled w \<and> p \<ge> lock_type v)
    \<and> (fst (check_mutex_lock w v p) \<noteq> 0 \<longrightarrow>
          snd (check_mutex_lock w v p) = v\<lparr>lock := Suc (lock v), lock_type := p\<rparr>)
    \<and> (fst (check_mutex_lock w v p) = 0 \<longrightarrow> snd (check_mutex_lock w v p) = v)
    \<and> (fst (check_mutex_unlock w v p) \<noteq> 0 \<longleftrightarrow> lock_enabled w \<and> p = lock_type v)
    \<and> (fst (check_mutex_unlock w v p) \<noteq> 0 \<longrightarrow>
          snd (check_mutex_unlock w v p) = v\<lparr>lock := lock v - 1, lock_type := 0\<rparr>)
    \<and> (fst (check_mutex_unlock w v p) = 0 \<longrightarrow> snd (check_mutex_unlock w v p) = v)"
  by (simp add: check_mutex_lock_def check_mutex_unlock_def mutex_lock_def mutex_unlock_def)

theorem check_mutex_priority_admission_witness:
  "(2::int) \<in> {1, 2, 3}
    \<and> fst (check_mutex_lock world0 (fst (the (created 8 {} world0))) 2) \<noteq> 0
    \<and> lock_type (snd (check_mutex_lock world0 (fst (the (created 8 {} world0))) 2)) = 2
    \<and> lock (snd (check_mutex_lock world0 (fst (the (created 8 {} world0))) 2)) = 1
    \<and> fst (check_mutex_unlock world0 (fst (the (created 8 {} world0))) 2) = 0
    \<and> fst (check_mutex_unlock world0
             (snd (check_mutex_lock world0 (fst (the (created 8 {} world0))) 2)) 2) \<noteq> 0
    \<and> lock_type (snd (check_mutex_unlock world0
             (snd (check_mutex_lock world0 (fst (the (created 8 {} world0))) 2)) 2)) = 0"
  using check_mutex_priority_admission [of 2 world0 "fst (the (created 8 {} world0))"]
    check_mutex_priority_admission [of 2 world0
      "snd (check_mutex_lock world0 (fst (the (created 8 {} world0))) 2)"]
  by (simp add: created_def vect_create_def world0_def alloc_attempt_def p_vect_capacity_def)


subsection \<open>Removal from an empty vector\<close>

lemma p_vect_size_lock_update [simp]:
  "p_vect_size (v\<lparr>lock := a, lock_type := b\<rparr>) = p_vect_size v"
  by (simp add: p_vect_size_def)

lemma p_vect_remove_at_empty:
  "p_vect_size u = 0 \<Longrightarrow> p_vect_remove_at u k a NULL w = Some (ZV_OK, NULL, u, w)"
  by (simp add: p_vect_remove_at_def)

text \<open>The empty vector of initial capacity 8 while a primitive holds its lock: the state
  in which a function called by \<^verbatim>\<open>vect_apply\<close> or \<^verbatim>\<open>vect_apply_range\<close> finds the vector.\<close>

lemma held_empty_vector:
  "p_vect_size (snd (check_mutex_lock world0 (fst (the (created 8 {} world0))) 1)) = 0"
  "lock_type (snd (check_mutex_lock world0 (fst (the (created 8 {} world0))) 1)) = 1"
  "lock (snd (check_mutex_lock world0 (fst (the (created 8 {} world0))) 1)) = 1"
  by (simp_all add: check_mutex_lock_def mutex_lock_def created_def vect_create_def world0_def
      alloc_attempt_def p_vect_capacity_def p_vect_size_def isub_def)

text \<open>C10, counterexample. The vector is empty and a primitive holds its lock
  (\<open>lock_type = 1\<close>, locking enabled). \<^verbatim>\<open>vect_pop\<close> returns \<^verbatim>\<open>NULL\<close> with no error, but the
  vector it leaves has \<open>lock_type = 0\<close>: it is not unchanged.\<close>

theorem remove_on_empty_vector_counterexample:
  "p_vect_size (snd (check_mutex_lock world0 (fst (the (created 8 {} world0))) 1)) = 0
   \<and> lock_type (snd (check_mutex_lock world0 (fst (the (created 8 {} world0))) 1)) = 1
   \<and> fst (the (vect_pop (snd (check_mutex_lock world0 (fst (the (created 8 {} world0))) 1))
                world0)) = ZV_OK
   \<and> fst (snd (the (vect_pop (snd (check_mutex_lock world0 (fst (the (created 8 {} world0))) 1))
                world0))) = NULL
   \<and> lock_type (fst (snd (snd (the (vect_pop
         (snd (check_mutex_lock world0 (fst (the (created 8 {} world0))) 1)) world0))))) = 0
   \<and> vect_pop (snd (check_mutex_lock world0 (fst (the (created 8 {} world0))) 1)) world0
       \<noteq> Some (ZV_OK, NULL, snd (check_mutex_lock world0 (fst (the (created 8 {} world0))) 1),
                 world0)"
proof -
  let ?v = "snd (check_mutex_lock world0 (fst (the (created 8 {} world0))) 1)"
  have en: "lock_enabled world0" by (simp add: world0_def)
  have pop: "vect_pop ?v world0 = Some (ZV_OK, NULL, ?v\<lparr>lock_type := 0\<rparr>, world0)"
    using held_empty_vector en
    by (simp add: vect_pop_def p_vect_remove_at_empty
        check_mutex_lock_def [of world0 ?v] check_mutex_unlock_def mutex_lock_def
        mutex_unlock_def)
  have "?v\<lparr>lock_type := 0\<rparr> \<noteq> ?v"
  proof
    assume "?v\<lparr>lock_type := 0\<rparr> = ?v"
    then have "lock_type (?v\<lparr>lock_type := 0\<rparr>) = lock_type ?v" by simp
    with held_empty_vector(2) show False by simp
  qed
  with pop held_empty_vector show ?thesis by simp
qed

text \<open>C10, amended. On a vector of size 0 each of \<^verbatim>\<open>vect_pop\<close>, \<^verbatim>\<open>vect_remove\<close>,
  \<^verbatim>\<open>vect_remove_at\<close> and \<^verbatim>\<open>vect_remove_front\<close> returns \<^verbatim>\<open>NULL\<close>, raises no error and
  changes neither the heap nor any field of the vector other than \<open>lock_type\<close>. The field
  \<open>lock_type\<close> is 0 afterwards when locking is enabled and it was at most 1 on entry, and
  is left as it was otherwise. So the vector is unchanged altogether unless locking is
  enabled and \<open>lock_type\<close> is neither 0 nor greater than 1 on entry, that is, unless a
  primitive already holds the lock.\<close>

theorem remove_on_empty_vector:
  assumes "p_vect_size v = 0"
  shows "vect_pop v w = Some (ZV_OK, NULL,
            v\<lparr>lock_type := (if lock_enabled w \<and> lock_type v \<le> 1 then 0 else lock_type v)\<rparr>, w)
    \<and> vect_remove v w = Some (ZV_OK, NULL,
            v\<lparr>lock_type := (if lock_enabled w \<and> lock_type v \<le> 1 then 0 else lock_type v)\<rparr>, w)
    \<and> vect_remove_at v i w = Some (ZV_OK, NULL,
            v\<lparr>lock_type := (if lock_enabled w \<and> lock_type v \<le> 1 then 0 else lock_type v)\<rparr>, w)
    \<and> vect_remove_front v w = Some (ZV_OK, NULL,
            v\<lparr>lock_type := (if lock_enabled w \<and> lock_type v \<le> 1 then 0 else lock_type v)\<rparr>, w)
    \<and> ((lock_enabled w \<longrightarrow> lock_type v = 0 \<or> 1 < lock_type v) \<longrightarrow>
          vect_pop v w = Some (ZV_OK, NULL, v, w)
        \<and> vect_remove v w = Some (ZV_OK, NULL, v, w)
        \<and> vect_remove_at v i w = Some (ZV_OK, NULL, v, w)
        \<and> vect_remove_front v w = Some (ZV_OK, NULL, v, w))"
proof -
  have same: "v\<lparr>lock_type := lock_type v\<rparr> = v" by simp
  show ?thesis
    using assms same
    by (auto simp add: vect_pop_def vect_remove_def vect_remove_at_def vect_remove_front_def
        check_mutex_lock_def check_mutex_unlock_def mutex_lock_def mutex_unlock_def
        p_vect_remove_at_empty)
qed

theorem remove_on_empty_vector_witness:
  "p_vect_size (fst (the (created 8 {} world0))) = 0
   \<and> vect_pop (fst (the (created 8 {} world0))) world0
       = Some (ZV_OK, NULL, fst (the (created 8 {} world0)), world0)
   \<and> vect_remove_front (fst (the (created 8 {} world0))) world0
       = Some (ZV_OK, NULL, fst (the (created 8 {} world0)), world0)
   \<and> p_vect_size (snd (check_mutex_lock world0 (fst (the (created 8 {} world0))) 1)) = 0
   \<and> vect_remove_at (snd (check_mutex_lock world0 (fst (the (created 8 {} world0))) 1)) 0 world0
       = Some (ZV_OK, NULL,
               (snd (check_mutex_lock world0 (fst (the (created 8 {} world0))) 1))
                 \<lparr>lock_type := 0\<rparr>, world0)"
proof -
  let ?u = "fst (the (created 8 {} world0))"
  let ?v = "snd (check_mutex_lock world0 ?u 1)"
  have en: "lock_enabled world0" by (simp add: world0_def)
  have u: "p_vect_size ?u = 0" "lock_type ?u = 0"
    by (simp_all add: created_def vect_create_def world0_def alloc_attempt_def
        p_vect_capacity_def p_vect_size_def isub_def)
  from remove_on_empty_vector [OF u(1), of world0 0] u(2)
  have a: "vect_pop ?u world0 = Some (ZV_OK, NULL, ?u, world0)"
    "vect_remove_front ?u world0 = Some (ZV_OK, NULL, ?u, world0)"
    by simp_all
  from remove_on_empty_vector [OF held_empty_vector(1), of world0 0] held_empty_vector(2) en
  have b: "vect_remove_at ?v 0 world0 = Some (ZV_OK, NULL, ?v\<lparr>lock_type := 0\<rparr>, world0)"
    by simp
  from a b u(1) held_empty_vector(1) show ?thesis by simp
qed

subsection \<open>General facts about the functions of the claims\<close>

text \<open>Creation of a circular vector, for every capacity, item size and property set:
  \<^verbatim>\<open>begin\<close> and \<^verbatim>\<open>end\<close> coincide, so the size is 0, and the capacity is
  \<open>init_capacity\<close>. \<^verbatim>\<open>p_vect_put_at\<close>, which \<^verbatim>\<open>p_vect_add_at\<close> delegates to for a circular
  vector, changes neither bounds nor capacities.\<close>

lemma isub_self [simp]: "isub a a = 0"
  by (simp add: isub_def)

lemma vect_create_circular_geometry:
  assumes "ZV_CIRCULAR \<in> properties"
    and "vect_create dc ds init_cap item_size properties w = Inr (v, w')"
  shows "vbegin v = vend v \<and> p_vect_size v = 0 \<and> p_vect_capacity v = init_capacity v
    \<and> length (data v) = p_vect_capacity v"
  using assms
  by (auto simp add: vect_create_def Let_def p_vect_size_def p_vect_capacity_def
      split: prod.splits bool.splits if_splits)

lemma p_vect_put_at_geometry:
  assumes "p_vect_put_at v val i w = Some (r, v', w')"
  shows "vbegin v' = vbegin v \<and> vend v' = vend v \<and> cap_left v' = cap_left v
    \<and> cap_right v' = cap_right v \<and> init_capacity v' = init_capacity v \<and> flags v' = flags v"
  using assms
  by (auto simp add: p_vect_put_at_def Let_def split: if_splits bind_splits)

lemma p_vect_add_at_circular_geometry:
  assumes "ZV_CIRCULAR \<in> flags v" "p_vect_add_at v val i a w = Some (r, v', w')"
  shows "p_vect_size v' = p_vect_size v \<and> p_vect_capacity v' = p_vect_capacity v
    \<and> init_capacity v' = init_capacity v"
  using assms p_vect_put_at_geometry [of v val i w r v' w']
  by (simp add: p_vect_add_at_def p_vect_size_def p_vect_capacity_def)

text \<open>\<^verbatim>\<open>vect_apply\<close> calls the function on every element, last element first;
  \<^verbatim>\<open>vect_apply_range\<close> with \<open>x < y\<close> calls it on none.\<close>

lemma p_apply_loop_fold:
  "\<forall>i \<in> set js. vbegin v + i < length (data v) \<Longrightarrow>
     p_apply_loop g v js e = Some (fold g (map (\<lambda>i. data v ! (vbegin v + i)) js) e)"
  by (induction js arbitrary: e) (simp_all add: slot_get_def)

lemma vect_elements_map:
  assumes "vbegin v \<le> vend v" "vend v \<le> length (data v)"
  shows "vect_elements v = map (\<lambda>i. data v ! (vbegin v + i)) [0 ..< p_vect_size v]"
  using assms
  by (intro nth_equalityI) (simp_all add: vect_elements_def p_vect_size_def isub_def)

lemma vect_apply_range_ascending_skipped:
  assumes "x < y" "y \<le> p_vect_size v"
  shows "\<exists>v'. vect_apply_range v (Some g) x y w e = Some (ZV_OK, v', e)"
  using assms
  by (simp add: vect_apply_range_def check_mutex_lock_def mutex_lock_def Let_def)

lemma vect_apply_reverse_order:
  assumes "vbegin v \<le> vend v" "vend v \<le> length (data v)"
  shows "\<exists>v'. vect_apply v (Some g) w e = Some (ZV_OK, v', fold g (rev (vect_elements v)) e)"
proof -
  let ?v1 = "snd (check_mutex_lock w v 1)"
  have same: "vbegin ?v1 = vbegin v" "vend ?v1 = vend v" "data ?v1 = data v"
    "p_vect_size ?v1 = p_vect_size v"
    by (simp_all add: check_mutex_lock_def mutex_lock_def p_vect_size_def)
  from assms have sz: "p_vect_size v = vend v - vbegin v" by (simp add: p_vect_size_def isub_def)
  have "\<forall>i \<in> set (rev [0 ..< p_vect_size ?v1]). vbegin ?v1 + i < length (data ?v1)"
    using assms sz same by auto
  from p_apply_loop_fold [OF this, of g e]
  have "p_apply_loop g ?v1 (rev [0 ..< p_vect_size ?v1]) e
        = Some (fold g (rev (vect_elements v)) e)"
    using same vect_elements_map [OF assms] by (simp add: rev_map)
  then show ?thesis
    by (cases "check_mutex_lock w v 1") (simp add: vect_apply_def)
qed


text \<open>The slots after a copy, by index. With them: for \<open>2 \<le> k < size\<close> and a successful
  allocation of the scratch array, \<^verbatim>\<open>vect_rotate_left(v, k)\<close> followed by
  \<^verbatim>\<open>vect_rotate_right(v, k)\<close> restores the slot array.\<close>

lemma slots_copy_ex:
  "soff + n \<le> length src \<Longrightarrow> doff + n \<le> length dst \<Longrightarrow>
     \<exists>r. slots_copy dst doff src soff n = Some r"
  by (simp add: slots_copy_def)

lemma slots_copy_length:
  "slots_copy dst doff src soff n = Some r \<Longrightarrow> length r = length dst"
  by (auto simp add: slots_copy_def split: if_splits)

lemma slots_copy_nth:
  assumes "slots_copy dst doff src soff n = Some r" "i < length dst"
  shows "r ! i = (if doff \<le> i \<and> i < doff + n then src ! (soff + (i - doff)) else dst ! i)"
proof -
  from assms(1) have b: "soff + n \<le> length src" "doff + n \<le> length dst"
    and r: "r = take doff dst @ (take n (drop soff src) @ drop (doff + n) dst)"
    by (auto simp add: slots_copy_def split: if_splits)
  have l1: "length (take doff dst) = doff" using b by simp
  have l2: "length (take n (drop soff src)) = n" using b by simp
  show ?thesis
  proof (cases "i < doff")
    case True
    with r l1 show ?thesis by (simp add: nth_append)
  next
    case False
    note nd = this
    show ?thesis
    proof (cases "i < doff + n")
      case True
      with nd have "i - doff < n" by linarith
      with nd True r l1 l2 b show ?thesis by (simp add: nth_append)
    next
      case False
      with nd have "\<not> i - doff < n" by linarith
      moreover have "doff + n + (i - doff - n) = i" using nd False by linarith
      ultimately show ?thesis using nd False r l1 l2 b assms(2) by (simp add: nth_append)
    qed
  qed
qed


lemma vect_rotate_left_many:
  assumes wf: "vbegin v \<le> vend v" "vend v \<le> length (data v)"
      "length (data v) = p_vect_capacity v"
    and k: "2 \<le> k" "k < p_vect_size v" and ok: "alloc_plan w = []"
  shows "\<exists>v'. vect_rotate_left v k w = Some (ZV_OK, v', w)
     \<and> vbegin v' = vbegin v \<and> vend v' = vend v \<and> p_vect_capacity v' = p_vect_capacity v
     \<and> length (data v') = length (data v)
     \<and> (\<forall>i < length (data v). data v' ! i =
          (if vbegin v + (p_vect_size v - k) \<le> i \<and> i < vend v
           then data v ! (i - (p_vect_size v - k))
           else if vbegin v \<le> i \<and> i < vbegin v + (p_vect_size v - k) then data v ! (i + k)
           else data v ! i))"
proof -
  let ?b = "vbegin v" and ?n = "p_vect_size v" and ?d = "data v"
  from wf have n: "?b + ?n = vend v" by (simp add: p_vect_size_def isub_def)
  have b1: "?b + k \<le> length ?d" "?b + k \<le> length (replicate (p_vect_capacity v) NULL)"
    using wf k n by simp_all
  from slots_copy_ex [OF b1] obtain nd where
    c1: "slots_copy (replicate (p_vect_capacity v) NULL) ?b ?d ?b k = Some nd" by blast
  have b2: "?b + k + (?n - k) \<le> length ?d" "?b + (?n - k) \<le> length ?d"
    using wf k n by simp_all
  from slots_copy_ex [OF b2] obtain d1 where
    c2: "slots_copy ?d ?b ?d (?b + k) (?n - k) = Some d1" by blast
  have l1: "length d1 = length ?d" using c2 by (rule slots_copy_length)
  have lnd: "length nd = length ?d" using c1 wf by (simp add: slots_copy_length)
  have b3: "?b + k \<le> length nd" "?b + (?n - k) + k \<le> length d1"
    using wf k n l1 lnd by simp_all
  from slots_copy_ex [OF b3] obtain d2 where
    c3: "slots_copy d1 (?b + (?n - k)) nd ?b k = Some d2" by blast
  have l2: "length d2 = length ?d" using c3 l1 by (simp add: slots_copy_length)
  have isub: "isub ?n k = ?n - k" using k by (simp add: isub_def)
  have nth: "\<forall>i < length ?d. d2 ! i =
          (if ?b + (?n - k) \<le> i \<and> i < vend v then ?d ! (i - (?n - k))
           else if ?b \<le> i \<and> i < ?b + (?n - k) then ?d ! (i + k)
           else ?d ! i)"
  proof (intro allI impI)
    fix i assume i: "i < length ?d"
    have a: "d2 ! i = (if ?b + (?n - k) \<le> i \<and> i < ?b + (?n - k) + k
                       then nd ! (?b + (i - (?b + (?n - k)))) else d1 ! i)"
      using slots_copy_nth [OF c3] i l1 by simp
    have b: "d1 ! i = (if ?b \<le> i \<and> i < ?b + (?n - k) then ?d ! (?b + k + (i - ?b)) else ?d ! i)"
      using slots_copy_nth [OF c2] i by simp
    have e: "?b + (?n - k) + k = vend v" using n k by linarith
    show "d2 ! i = (if ?b + (?n - k) \<le> i \<and> i < vend v then ?d ! (i - (?n - k))
           else if ?b \<le> i \<and> i < ?b + (?n - k) then ?d ! (i + k)
           else ?d ! i)"
    proof (cases "?b + (?n - k) \<le> i \<and> i < vend v")
      case True
      let ?j = "?b + (i - (?b + (?n - k)))"
      from True e have j: "?b \<le> ?j" "?j < ?b + k" by linarith+
      have "?j < length (replicate (p_vect_capacity v) NULL)" using j wf n k by simp
      from slots_copy_nth [OF c1 this] j have "nd ! ?j = ?d ! (?b + (?j - ?b))" by simp
      moreover have "?b + (?j - ?b) = i - (?n - k)" using True by linarith
      ultimately show ?thesis using a True e by simp
    next
      case False
      moreover have "?b + k + (i - ?b) = i + k" if "?b \<le> i" using that by linarith
      ultimately show ?thesis using a b e by (auto simp: add.commute)
    qed
  qed
  obtain lo v1 where lk: "check_mutex_lock w v 1 = (lo, v1)" by (cases "check_mutex_lock w v 1")
  then have same: "vbegin v1 = ?b" "vend v1 = vend v" "data v1 = ?d" "p_vect_size v1 = ?n"
    "p_vect_capacity v1 = p_vect_capacity v"
    by (auto simp add: check_mutex_lock_def mutex_lock_def p_vect_size_def p_vect_capacity_def
        split: if_splits)
  have kk: "k \<noteq> 0" "k \<noteq> ?n" "\<not> ?n < k" "k \<noteq> Suc 0" using k by simp_all
  have al: "alloc_attempt w = (True, w)" using ok by (simp add: alloc_attempt_def)
  let ?v2 = "v1\<lparr>data := d2\<rparr>"
  let ?v3 = "if lo \<noteq> 0 then snd (check_mutex_unlock w ?v2 1) else ?v2"
  have run: "vect_rotate_left v k w = Some (ZV_OK, ?v3, w)"
    by (simp add: vect_rotate_left_def lk same kk al c1 c2 c3 isub vect_memmove_def)
  have "vbegin ?v3 = ?b \<and> vend ?v3 = vend v \<and> p_vect_capacity ?v3 = p_vect_capacity v
      \<and> data ?v3 = d2"
    using same
    by (simp add: check_mutex_unlock_def mutex_unlock_def p_vect_capacity_def)
  with run nth l2 show ?thesis by simp
qed


lemma vect_rotate_right_many:
  assumes wf: "vbegin v \<le> vend v" "vend v \<le> length (data v)"
      "length (data v) = p_vect_capacity v"
    and k: "2 \<le> k" "k < p_vect_size v" and ok: "alloc_plan w = []"
  shows "\<exists>v'. vect_rotate_right v k w = Some (ZV_OK, v', w)
     \<and> vbegin v' = vbegin v \<and> vend v' = vend v \<and> p_vect_capacity v' = p_vect_capacity v
     \<and> length (data v') = length (data v)
     \<and> (\<forall>i < length (data v). data v' ! i =
          (if vbegin v \<le> i \<and> i < vbegin v + k then data v ! (i + (p_vect_size v - k))
           else if vbegin v + k \<le> i \<and> i < vend v then data v ! (i - k)
           else data v ! i))"
proof -
  let ?b = "vbegin v" and ?n = "p_vect_size v" and ?d = "data v"
  from wf have n: "?b + ?n = vend v" by (simp add: p_vect_size_def isub_def)
  have b1: "?b + (?n - k) + k \<le> length ?d"
    "?b + k \<le> length (replicate (p_vect_capacity v) NULL)"
    using wf k n by simp_all
  from slots_copy_ex [OF b1] obtain nd where
    c1: "slots_copy (replicate (p_vect_capacity v) NULL) ?b ?d (?b + (?n - k)) k = Some nd"
    by blast
  have b2: "?b + (?n - k) \<le> length ?d" "?b + k + (?n - k) \<le> length ?d"
    using wf k n by simp_all
  from slots_copy_ex [OF b2] obtain d1 where
    c2: "slots_copy ?d (?b + k) ?d ?b (?n - k) = Some d1" by blast
  have l1: "length d1 = length ?d" using c2 by (rule slots_copy_length)
  have lnd: "length nd = length ?d" using c1 wf by (simp add: slots_copy_length)
  have b3: "?b + k \<le> length nd" "?b + k \<le> length d1"
    using wf k n l1 lnd by simp_all
  from slots_copy_ex [OF b3] obtain d2 where
    c3: "slots_copy d1 ?b nd ?b k = Some d2" by blast
  have l2: "length d2 = length ?d" using c3 l1 by (simp add: slots_copy_length)
  have isub: "isub ?n k = ?n - k" using k by (simp add: isub_def)
  have nth: "\<forall>i < length ?d. d2 ! i =
          (if ?b \<le> i \<and> i < ?b + k then ?d ! (i + (?n - k))
           else if ?b + k \<le> i \<and> i < vend v then ?d ! (i - k)
           else ?d ! i)"
  proof (intro allI impI)
    fix i assume i: "i < length ?d"
    have a: "d2 ! i = (if ?b \<le> i \<and> i < ?b + k then nd ! (?b + (i - ?b)) else d1 ! i)"
      using slots_copy_nth [OF c3] i l1 by simp
    have b: "d1 ! i = (if ?b + k \<le> i \<and> i < ?b + k + (?n - k) then ?d ! (?b + (i - (?b + k)))
                       else ?d ! i)"
      using slots_copy_nth [OF c2] i by simp
    have e: "?b + k + (?n - k) = vend v" using n k by linarith
    show "d2 ! i = (if ?b \<le> i \<and> i < ?b + k then ?d ! (i + (?n - k))
           else if ?b + k \<le> i \<and> i < vend v then ?d ! (i - k)
           else ?d ! i)"
    proof (cases "?b \<le> i \<and> i < ?b + k")
      case True
      then have j: "?b + (i - ?b) = i" by linarith
      have "i < length (replicate (p_vect_capacity v) NULL)" using i wf by simp
      from slots_copy_nth [OF c1 this] True
      have "nd ! i = ?d ! (?b + (?n - k) + (i - ?b))" by simp
      moreover have "?b + (?n - k) + (i - ?b) = i + (?n - k)" using True by linarith
      ultimately show ?thesis using a True j by simp
    next
      case False
      moreover have "?b + (i - (?b + k)) = i - k" if "?b + k \<le> i" using that by linarith
      ultimately show ?thesis using a b e by auto
    qed
  qed
  obtain lo v1 where lk: "check_mutex_lock w v 1 = (lo, v1)" by (cases "check_mutex_lock w v 1")
  then have same: "vbegin v1 = ?b" "vend v1 = vend v" "data v1 = ?d" "p_vect_size v1 = ?n"
    "p_vect_capacity v1 = p_vect_capacity v"
    by (auto simp add: check_mutex_lock_def mutex_lock_def p_vect_size_def p_vect_capacity_def
        split: if_splits)
  have kk: "k \<noteq> 0" "k \<noteq> ?n" "\<not> ?n < k" "k \<noteq> Suc 0" using k by simp_all
  have al: "alloc_attempt w = (True, w)" using ok by (simp add: alloc_attempt_def)
  let ?v2 = "v1\<lparr>data := d2\<rparr>"
  let ?v3 = "if lo \<noteq> 0 then snd (check_mutex_unlock w ?v2 1) else ?v2"
  have run: "vect_rotate_right v k w = Some (ZV_OK, ?v3, w)"
    by (simp add: vect_rotate_right_def lk same kk al c1 c2 c3 isub vect_memmove_def)
  have "vbegin ?v3 = ?b \<and> vend ?v3 = vend v \<and> p_vect_capacity ?v3 = p_vect_capacity v
      \<and> data ?v3 = d2"
    using same
    by (simp add: check_mutex_unlock_def mutex_unlock_def p_vect_capacity_def)
  with run nth l2 show ?thesis by simp
qed

lemma vect_rotate_left_right_many:
  assumes wf: "vbegin v \<le> vend v" "vend v \<le> length (data v)"
      "length (data v) = p_vect_capacity v"
    and k: "2 \<le> k" "k < p_vect_size v" and ok: "alloc_plan w = []"
  shows "\<exists>v1 v2. vect_rotate_left v k w = Some (ZV_OK, v1, w)
     \<and> vect_rotate_right v1 k w = Some (ZV_OK, v2, w)
     \<and> data v2 = data v \<and> vect_elements v2 = vect_elements v"
proof -
  let ?b = "vbegin v" and ?n = "p_vect_size v" and ?d = "data v"
  from wf have n: "?b + ?n = vend v" by (simp add: p_vect_size_def isub_def)
  from vect_rotate_left_many [OF wf k ok] obtain v1 where
    r1: "vect_rotate_left v k w = Some (ZV_OK, v1, w)"
    and g1: "vbegin v1 = ?b" "vend v1 = vend v" "p_vect_capacity v1 = p_vect_capacity v"
      "length (data v1) = length ?d"
    and n1: "\<forall>i < length ?d. data v1 ! i =
          (if ?b + (?n - k) \<le> i \<and> i < vend v then ?d ! (i - (?n - k))
           else if ?b \<le> i \<and> i < ?b + (?n - k) then ?d ! (i + k)
           else ?d ! i)"
    by blast
  have sz1: "p_vect_size v1 = ?n" using g1 by (simp add: p_vect_size_def)
  have wf1: "vbegin v1 \<le> vend v1" "vend v1 \<le> length (data v1)"
    "length (data v1) = p_vect_capacity v1"
    using wf g1 by simp_all
  have k1: "2 \<le> k" "k < p_vect_size v1" using k sz1 by simp_all
  from vect_rotate_right_many [OF wf1 k1 ok] obtain v2 where
    r2: "vect_rotate_right v1 k w = Some (ZV_OK, v2, w)"
    and g2: "vbegin v2 = ?b" "vend v2 = vend v" "length (data v2) = length ?d"
    and n2: "\<forall>i < length ?d. data v2 ! i =
          (if ?b \<le> i \<and> i < ?b + k then data v1 ! (i + (?n - k))
           else if ?b + k \<le> i \<and> i < vend v then data v1 ! (i - k)
           else data v1 ! i)"
    using g1 sz1 by auto
  have "data v2 = ?d"
  proof (rule nth_equalityI)
    show "length (data v2) = length ?d" by (rule g2)
  next
    fix i assume "i < length (data v2)"
    with g2 have i: "i < length ?d" by simp
    let ?A = "\<lambda>j. ?b + (?n - k) \<le> j \<and> j < vend v"
    let ?B = "\<lambda>j. ?b \<le> j \<and> j < ?b + (?n - k)"
    have left: "data v1 ! j = (if ?A j then ?d ! (j - (?n - k))
                               else if ?B j then ?d ! (j + k) else ?d ! j)"
      if "j < length ?d" for j using n1 that by blast
    have right: "data v2 ! i = (if ?b \<le> i \<and> i < ?b + k then data v1 ! (i + (?n - k))
                else if ?b + k \<le> i \<and> i < vend v then data v1 ! (i - k) else data v1 ! i)"
      using n2 i by blast
    show "data v2 ! i = ?d ! i"
    proof (cases "?b \<le> i \<and> i < ?b + k")
      case True
      let ?j = "i + (?n - k)"
      from True k n wf have j: "?A ?j" "?j < length ?d" by linarith+
      have "data v2 ! i = data v1 ! ?j" using right True by (simp only: if_True if_False simp_thms)
      also have "\<dots> = ?d ! (?j - (?n - k))" using left [OF j(2)] j(1) by (simp only: if_True if_False simp_thms)
      also have "?j - (?n - k) = i" by simp
      finally show ?thesis .
    next
      case False
      note nf = this
      show ?thesis
      proof (cases "?b + k \<le> i \<and> i < vend v")
        case True
        let ?j = "i - k"
        from True k n i have j: "\<not> ?A ?j" "?B ?j" "?j < length ?d" by linarith+
        have "data v2 ! i = data v1 ! ?j" using right nf True by (simp only: if_True if_False simp_thms)
        also have "\<dots> = ?d ! (?j + k)"
          using left [OF j(3)] j(1) j(2) by (simp only: if_True if_False simp_thms)
        also have "?j + k = i" using True by linarith
        finally show ?thesis .
      next
        case False
        from nf False n k have o: "\<not> ?A i" "\<not> ?B i" by linarith+
        have "data v2 ! i = data v1 ! i" using right nf False by (simp only: if_True if_False simp_thms)
        also have "\<dots> = ?d ! i" using left [OF i] o by (simp only: if_True if_False simp_thms)
        finally show ?thesis .
      qed
    qed
  qed
  moreover from this g2 have "vect_elements v2 = vect_elements v"
    by (simp add: vect_elements_def p_vect_size_def)
  ultimately show ?thesis using r1 r2 by blast
qed


text \<open>The removal at an interior index of a by-reference vector returns the stored pointer
  and hands it to \<^verbatim>\<open>free\<close>; the capacity check after it frees nothing.\<close>

lemma p_vect_decrease_capacity_freed:
  assumes "p_vect_decrease_capacity v d w = Some (r, v', w')"
  shows "freed w' = freed w \<and> mem w' = mem w"
proof (cases "alloc_attempt w")
  case (Pair ok w1)
  then have "freed w1 = freed w \<and> mem w1 = mem w"
    by (auto simp add: alloc_attempt_def split: list.splits)
  with Pair assms show ?thesis
    by (cases ok; cases "d = 0")
       (auto simp add: p_vect_decrease_capacity_def Let_def split: if_splits bind_splits)
qed

lemma p_vect_decrease_capacity_right_total:
  assumes "d \<noteq> 0"
  shows "\<exists>r v' w'. p_vect_decrease_capacity v d w = Some (r, v', w')"
proof (cases "alloc_attempt w")
  case (Pair ok w1)
  then show ?thesis
    using assms by (cases ok) (simp_all add: p_vect_decrease_capacity_def Let_def)
qed

lemma byref_remove_at_interior_frees:
  assumes byref: "ZV_BYREF \<in> flags v" and lin: "ZV_CIRCULAR \<notin> flags v"
    and wf: "vbegin v \<le> vend v" "vend v < length (data v)"
    and i: "0 < i" "i < p_vect_size v - 1"
  shows "\<exists>v' w'. p_vect_remove_at v i a NULL w = Some (ZV_OK, data v ! (vbegin v + i), v', w')
     \<and> freed w' = freed (free (data v ! (vbegin v + i)) w)"
proof -
  let ?b = "vbegin v" and ?n = "p_vect_size v" and ?p = "data v ! (vbegin v + i)"
  from wf have n: "?n = vend v - ?b" "?b + ?n = vend v" by (simp_all add: p_vect_size_def isub_def)
  have g: "slot_get (data v) (?b + i) = Some ?p" using wf i n by (simp add: slot_get_def)
  have b: "?b + (i + 1) + (?n - i) \<le> length (data v)" "?b + i + (?n - i) \<le> length (data v)"
    using wf i n by simp_all
  then obtain d where m: "vect_memmove (data v) (?b + i) (?b + (i + 1)) (?n - i) = Some d"
    by (simp add: vect_memmove_def slots_copy_def)
  have ld: "length d = length (data v)"
    using m by (auto simp add: vect_memmove_def slots_copy_def split: if_splits)
  let ?v5 = "v\<lparr>data := d, prev_end := ?n, vend := vend v - 1\<rparr>"
  from i p_vect_decrease_capacity_right_total [of i ?v5 "free ?p w"] obtain r v6 w6
    where dc: "p_vect_decrease_capacity ?v5 i (free ?p w) = Some (r, v6, w6)" by blast
  have fr: "freed w6 = freed (free ?p w)" using p_vect_decrease_capacity_freed [OF dc] by simp
  have nz: "?n \<noteq> 0" "\<not> ?n \<le> i" "i \<noteq> 0" "i < ?n - Suc 0" "?b < vend v" "\<not> vend v < ?b"
    using i n by simp_all
  have take: "p_vect_remove_at_take v i ?n w =
      (if 4 * ?n < p_vect_capacity ?v5 then Some (ZV_OK, ?p, v6, w6)
       else Some (ZV_OK, ?p, ?v5, free ?p w))"
    using byref lin g m nz dc
    by (simp add: p_vect_remove_at_take_def Let_def)
  have "p_vect_remove_at v i a NULL w = p_vect_remove_at_take v i ?n w"
    using lin nz by (simp add: p_vect_remove_at_def Let_def)
  with take fr show ?thesis by auto
qed


text \<open>\<^verbatim>\<open>vect_insert\<close> with \<^verbatim>\<open>e2 == 0\<close> and \<^verbatim>\<open>s2 == size(v2)\<close>: the bound \<^verbatim>\<open>s2 + ee2\<close> wraps to
  \<open>size - 1\<close>, the loop does not run and the call returns normally.\<close>

lemma vect_insert_from_end:
  assumes "0 < p_vect_size v2" "p_vect_size v2 < zvect_index_range"
    and "data_size v1 = data_size v2"
  shows "\<exists>v1'. vect_insert v1 v2 (p_vect_size v2) 0 s1 w = Some (ZV_OK, v1', w)
     \<and> data v1' = data v1 \<and> vbegin v1' = vbegin v1 \<and> vend v1' = vend v1"
proof -
  let ?n = "p_vect_size v2"
  have e: "isub (isub ?n 1) ?n = zvect_index_range - 1"
    using assms by (simp add: isub_def)
  have "(?n + (zvect_index_range - 1)) mod zvect_index_range = ?n - 1"
  proof -
    have a: "?n + (zvect_index_range - 1) = (?n - 1) + zvect_index_range" using assms by linarith
    have b: "?n - 1 < zvect_index_range" using assms by linarith
    show ?thesis unfolding a using b by (simp only: mod_add_self2 mod_less)
  qed
  then have l: "iadd ?n (zvect_index_range - 1) = ?n - 1"
    by (simp add: iadd_def as_zvect_index_mod)
  have nz: "as_zvect_index (?n - 1 + 1) \<noteq> 0"
    using assms by (simp add: as_zvect_index_mod)
  have ng: "\<not> ?n \<le> ?n - Suc 0" using assms(1) by linarith
  obtain lo v1a where lk: "check_mutex_lock w v1 2 = (lo, v1a)" by (cases "check_mutex_lock w v1 2")
  then have same: "data_size v1a = data_size v1" "data v1a = data v1" "vbegin v1a = vbegin v1"
      "vend v1a = vend v1"
    by (auto simp add: check_mutex_lock_def mutex_lock_def split: if_splits)
  have "vect_insert v1 v2 ?n 0 s1 w =
      Some (ZV_OK, (if lo \<noteq> 0 then snd (check_mutex_unlock w v1a 2) else v1a), w)"
    using assms(3) e l nz ng by (simp add: vect_insert_def lk same Let_def)
  then show ?thesis
    using same by (auto simp add: check_mutex_unlock_def mutex_unlock_def)
qed

subsection \<open>Behaviour at concrete inputs\<close>

text \<open>C1. \<^verbatim>\<open>vect_create(8, 4, ZV_CIRCULAR)\<close> returns a vector with \<^verbatim>\<open>begin = end = 3\<close>: its
  size is 0, while \<open>cap_left + cap_right - 1\<close> is 7. Its capacity and \<open>init_capacity\<close>
  are both 8.\<close>

theorem vect_create_circular_size_zero:
  "map_option (\<lambda>(v, w). (vbegin v, vend v, p_vect_size v, cap_left v + cap_right v - 1,
                          p_vect_capacity v, init_capacity v))
     (created 8 {ZV_CIRCULAR} world0)
   = Some (3, 3, 0, 7, 8, 8)"
  by code_simp

text \<open>C3. A by-reference vector holds the caller's pointers 100, 101 and 102.
  \<^verbatim>\<open>vect_remove_at(v, 1)\<close> returns the stored pointer 101 and calls \<^verbatim>\<open>free\<close> on it;
  \<^verbatim>\<open>vect_remove_front(v)\<close> returns 100 and calls \<^verbatim>\<open>free\<close> on it.\<close>

theorem byref_remove_frees_stored_pointer:
  "do {
     (v, w) \<leftarrow> pushed3 {ZV_BYREF} world0;
     (r1, item1, v1, w1) \<leftarrow> vect_remove_at v 1 w;
     (r2, item2, v2, w2) \<leftarrow> vect_remove_front v w;
     Some (vect_elements v, freed w,
           r1, item1, vect_elements v1, freed w1,
           r2, item2, vect_elements v2, freed w2)
   } = Some ([100, 101, 102], [],
             ZV_OK, 101, [100, 102], [101],
             ZV_OK, 100, [101, 102], [100])"
  by code_simp

text \<open>C4. A vector holds 101, 102, 103 with \<^verbatim>\<open>begin = 1\<close> (four pushes and one
  \<^verbatim>\<open>vect_remove_front\<close>). \<^verbatim>\<open>vect_rotate_left(v, 1)\<close> moves the slots from index 0 of the
  array instead of \<^verbatim>\<open>begin\<close> and leaves 102, 100, 103; \<^verbatim>\<open>vect_rotate_right(v, 1)\<close> after it
  leaves 103, 102, 100, not the sequence before the two calls.\<close>

theorem rotate_left_one_ignores_begin:
  "do {
     (v, w) \<leftarrow> pushed3 {ZV_BYREF} world0;
     (r, va, wa) \<leftarrow> vect_push v 103 w;
     (r0, item, v0, w0) \<leftarrow> vect_remove_front va wa;
     (r1, v1, w1) \<leftarrow> vect_rotate_left v0 1 w0;
     (r2, v2, w2) \<leftarrow> vect_rotate_right v1 1 w1;
     Some (vbegin v0, vect_elements v0, r1, vect_elements v1, r2, vect_elements v2)
   } = Some (1, [101, 102, 103], ZV_OK, [102, 100, 103], ZV_OK, [103, 102, 100])"
  by code_simp

text \<open>C5. On the vector 100, 101, 102 \<^verbatim>\<open>vect_apply_range(v, f, 0, 2)\<close> calls \<open>f\<close> on no
  element at all (the recorded calls are the empty list), while \<^verbatim>\<open>vect_apply(v, f)\<close> calls
  it on 102, 101, 100 in this order.\<close>

theorem apply_range_calls_nothing:
  "do {
     (v, w) \<leftarrow> pushed3 {ZV_BYREF} world0;
     (r1, v1, t1) \<leftarrow> vect_apply_range v (Some (\<lambda>p t. t @ [p])) 0 2 w [];
     (r2, v2, t2) \<leftarrow> vect_apply v (Some (\<lambda>p t. t @ [p])) w [];
     Some (vect_elements v, r1, t1, r2, t2)
   } = Some ([100, 101, 102], ZV_OK, [], ZV_OK, [102, 101, 100])"
  by code_simp

text \<open>C6. With \<open>v2\<close> holding 100, 101, 102 and \<open>v1\<close> empty, \<^verbatim>\<open>vect_insert(v1, v2, 0, 1, 0)\<close>
  succeeds and inserts two elements, 100 and 101: the size of \<open>v1\<close> grows by \<open>e2 + 1\<close>.\<close>

theorem insert_copies_one_more:
  "do {
     (v2, w) \<leftarrow> pushed3 {ZV_BYREF} world0;
     (v1, wa) \<leftarrow> created 8 {ZV_BYREF} w;
     (r, v1a, w1) \<leftarrow> vect_insert v1 v2 0 1 0 wa;
     Some (vect_elements v2, p_vect_size v1, r, p_vect_size v1a, vect_elements v1a)
   } = Some ([100, 101, 102], 0, ZV_OK, 2, [100, 101])"
  by code_simp

text \<open>C8. A by-value vector holds three elements (the blocks 1, 2, 3). \<^verbatim>\<open>vect_add_at(v, x, 1)\<close>
  whose allocation of the new element fails ends with the out-of-memory error, and the
  live range is then 1, \<^verbatim>\<open>NULL\<close>, 2: the slots were shifted before the allocation and
  are not shifted back.\<close>

theorem add_at_oom_changes_live_range:
  "do {
     (v, w) \<leftarrow> pushed3 {} world0;
     (r1, v1, w1) \<leftarrow> vect_add_at v 103 1 (w\<lparr>alloc_plan := [False]\<rparr>);
     Some (vect_elements v, p_vect_size v, r1, vect_elements v1, p_vect_size v1)
   } = Some ([1, 2, 3], 3, ZVERR_OUTOFMEM, [1, NULL, 2], 3)"
  by code_simp


text \<open>C7. A by-value vector of initial capacity 4 receives eleven pushes, seven
  \<^verbatim>\<open>vect_remove_front\<close>, a \<^verbatim>\<open>vect_pop\<close>, a \<^verbatim>\<open>vect_remove_front\<close> and a push; it then holds
  three elements in the slots 8, 9, 10 of an array of 18 slots. \<^verbatim>\<open>vect_push(v, x)\<close> followed
  by \<^verbatim>\<open>vect_pop(v)\<close> returns a copy of the bytes of \<open>x\<close> and the size is 3 again, but the pop
  has shrunk the slot array to 10 slots while \<^verbatim>\<open>end\<close> is 11: the third element is no longer
  in the array.\<close>

theorem push_pop_cuts_live_range:
  "do {
     vw0 \<leftarrow> created 4 {} world0;
     vw1 \<leftarrow> push_all (replicate 11 100) vw0;
     vw2 \<leftarrow> remove_fronts 7 vw1;
     (ra, ia, va, wa) \<leftarrow> vect_pop (fst vw2) (snd vw2);
     (rb, ib, vb, wb) \<leftarrow> vect_remove_front va wa;
     (rc, v, w) \<leftarrow> vect_push vb 101 wb;
     (r1, v1, w1) \<leftarrow> vect_push v 102 w;
     (r2, item, v2, w2) \<leftarrow> vect_pop v1 w1;
     Some ((ra, rb, rc), (vbegin v, vend v, length (data v), p_vect_size v, vect_elements v),
           (r1, r2, mem w2 item = mem world0 102),
           (vbegin v2, vend v2, length (data v2), p_vect_size v2, vect_elements v2))
   } = Some ((ZV_OK, ZV_OK, ZV_OK), (8, 11, 18, 3, [9, 10, 21]),
             (ZV_OK, ZV_OK, True),
             (8, 11, 10, 3, [9, 10]))"
  by code_simp

subsection \<open>Binary search for an absent key\<close>

lemma key_mono_sorted:
  assumes "valid_comparator f" "sorted_wrt (\<lambda>a b. f a b \<le> 0) xs"
  shows "key_mono f key xs"
  unfolding key_mono_def
proof (intro allI impI)
  fix i j assume h: "i \<le> j \<and> j < length xs \<and> f key (xs ! j) \<ge> 0"
  show "f key (xs ! i) \<ge> 0"
  proof (cases "i = j")
    case True with h show ?thesis by simp
  next
    case False
    with h have "i < j" by simp
    with assms(2) h have a: "f (xs ! i) (xs ! j) \<le> 0" by (simp add: sorted_wrt_iff_nth_less)
    from h assms(1) have b: "f (xs ! j) key \<le> 0"
      unfolding valid_comparator_def by (metis linorder_not_less)
    from a b assms(1) have "f (xs ! i) key \<le> 0" unfolding valid_comparator_def by blast
    with assms(1) show ?thesis unfolding valid_comparator_def by (metis linorder_not_less)
  qed
qed

lemma monobound_inv:
  "elems_of v xs \<Longrightarrow> key_mono f key xs \<Longrightarrow> bs_inv f key xs bt tp \<Longrightarrow>
    \<exists>bt' tp'. p_abs_monobound f key v bt tp = Some (bt', tp') \<and> bs_inv f key xs bt' tp'"
proof (induction f key v bt tp rule: p_abs_monobound.induct)
  case (1 f1 key v bt tp)
  note el = "1.prems"(1) and mono = "1.prems"(2) and inv0 = "1.prems"(3)
  show ?case
  proof (cases "tp > 3")
    case False
    then show ?thesis using inv0 by simp
  next
    case True
    let ?m = "tp div 2"
    from True have m: "0 < ?m" "?m < tp" "2 * ?m \<le> tp" by auto
    from inv0 have b: "bt + tp \<le> length xs" by (simp add: bs_inv_def)
    with m have lt: "bt + ?m < length xs" by linarith
    with el have e: "p_vect_elem v (bt + ?m) = Some (xs ! (bt + ?m))" by (simp add: elems_of_def)
    let ?bt = "if f1 key (xs ! (bt + ?m)) \<ge> 0 then bt + ?m else bt"
    have inv: "bs_inv f1 key xs ?bt (tp - ?m)"
    proof (cases "f1 key (xs ! (bt + ?m)) \<ge> 0")
      case True
      have "bt + ?m + (tp - ?m) = bt + tp" using m by linarith
      with True inv0 lt show ?thesis by (simp add: bs_inv_def)
    next
      case False
      have "\<forall>i. bt + (tp - ?m) \<le> i \<and> i < length xs \<longrightarrow> f1 key (xs ! i) < 0"
      proof (intro allI impI)
        fix i assume i: "bt + (tp - ?m) \<le> i \<and> i < length xs"
        with m have "bt + ?m \<le> i" by linarith
        with mono[unfolded key_mono_def] i False show "f1 key (xs ! i) < 0"
          by (meson linorder_not_less)
      qed
      moreover have "bt + (tp - ?m) \<le> length xs" using b by linarith
      ultimately show ?thesis using False inv0 by (simp add: bs_inv_def)
    qed
    have "\<exists>bt' tp'. p_abs_monobound f1 key v ?bt (tp - ?m) = Some (bt', tp') \<and> bs_inv f1 key xs bt' tp'"
      using "1.IH"[OF True e el mono inv] .
    then show ?thesis
      using True e by (subst p_abs_monobound.simps) simp
  qed
qed

lemma scan_inv:
  "elems_of v xs \<Longrightarrow> \<forall>x \<in> set xs. f key x \<noteq> 0 \<Longrightarrow> bs_inv f key xs bt tp \<Longrightarrow>
    \<exists>k. p_abs_scan f key v bt tp = Some (False, k) \<and> k \<le> length xs
        \<and> (0 < k \<longrightarrow> f key (xs ! (k - 1)) \<ge> 0)
        \<and> (\<forall>i. k \<le> i \<and> i < length xs \<longrightarrow> f key (xs ! i) < 0)"
proof (induction tp)
  case 0
  then have "bt = 0 \<or> (bt < length xs \<and> f key (xs ! bt) \<ge> 0 \<and> f key (xs ! bt) < 0)"
    by (auto simp: bs_inv_def)
  then have "bt = 0" by auto
  with 0 show ?case by (simp add: bs_inv_def)
next
  case (Suc tp)
  note el = Suc.prems(1) and ab = Suc.prems(2) and inv0 = Suc.prems(3)
  from inv0 have lt: "bt + tp < length xs" by (simp add: bs_inv_def)
  with el have e: "p_vect_elem v (bt + tp) = Some (xs ! (bt + tp))" by (simp add: elems_of_def)
  from lt ab have ne: "f key (xs ! (bt + tp)) \<noteq> 0" by simp
  show ?case
  proof (cases "f key (xs ! (bt + tp)) > 0")
    case True
    from inv0 have "\<forall>i. Suc (bt + tp) \<le> i \<and> i < length xs \<longrightarrow> f key (xs ! i) < 0"
      by (simp add: bs_inv_def)
    with True e lt show ?thesis by simp
  next
    case False
    with ne have neg: "f key (xs ! (bt + tp)) < 0" by simp
    have "\<forall>i. bt + tp \<le> i \<and> i < length xs \<longrightarrow> f key (xs ! i) < 0"
    proof (intro allI impI)
      fix i assume i: "bt + tp \<le> i \<and> i < length xs"
      show "f key (xs ! i) < 0"
      proof (cases "i = bt + tp")
        case True with neg show ?thesis by simp
      next
        case False
        with i have "bt + Suc tp \<le> i" by simp
        with inv0 i show ?thesis unfolding bs_inv_def by blast
      qed
    qed
    with inv0 lt have "bs_inv f key xs bt tp" by (simp add: bs_inv_def)
    from Suc.IH[OF el ab this] show ?thesis using e ne False by simp
  qed
qed

lemma expand_up_inv:
  "elems_of v xs \<Longrightarrow> key_mono f key xs \<Longrightarrow> bt < length xs \<Longrightarrow> f key (xs ! bt) \<ge> 0 \<Longrightarrow> 0 < tp \<Longrightarrow>
    \<exists>bt' tp'. p_abs_expand_up f key v bt tp = Some (bt', tp') \<and> bs_inv f key xs bt' tp'"
proof (induction f key v bt tp rule: p_abs_expand_up.induct)
  case (1 f1 key v bt tp)
  note el = "1.prems"(1) and mono = "1.prems"(2) and bl = "1.prems"(3) and pb = "1.prems"(4)
    and tp = "1.prems"(5)
  from el have sz: "p_vect_size v = length xs" by (simp add: elems_of_def)
  show ?case
  proof (cases "bt + tp \<ge> length xs")
    case True
    with sz bl pb show ?thesis
      by (subst p_abs_expand_up.simps) (simp add: bs_inv_def isub_def)
  next
    case False
    then have lt: "bt + tp < length xs" by simp
    with el have e: "p_vect_elem v (bt + tp) = Some (xs ! (bt + tp))" by (simp add: elems_of_def)
    show ?thesis
    proof (cases "f1 key (xs ! (bt + tp)) < 0")
      case True
      have "\<forall>i. bt + tp \<le> i \<and> i < length xs \<longrightarrow> f1 key (xs ! i) < 0"
      proof (intro allI impI)
        fix i assume i: "bt + tp \<le> i \<and> i < length xs"
        with mono[unfolded key_mono_def] True show "f1 key (xs ! i) < 0"
          by (meson linorder_not_less)
      qed
      with True lt bl pb e sz False show ?thesis
        by (subst p_abs_expand_up.simps) (simp add: bs_inv_def)
    next
      case nneg: False
      have "\<exists>bt' tp'. p_abs_expand_up f1 key v (bt + tp) (tp * 2) = Some (bt', tp') \<and> bs_inv f1 key xs bt' tp'"
        using "1.IH"[OF _ e _ _ el mono lt] nneg tp False sz by simp
      with nneg tp False sz e show ?thesis
        by (subst p_abs_expand_up.simps) simp
    qed
  qed
qed

lemma expand_down_inv:
  "elems_of v xs \<Longrightarrow> key_mono f key xs \<Longrightarrow> bt < length xs \<Longrightarrow> f key (xs ! bt) < 0 \<Longrightarrow> 0 < tp \<Longrightarrow>
    \<exists>bt' tp'. p_abs_expand_down f key v bt tp = Some (bt', tp') \<and> bs_inv f key xs bt' tp'"
proof (induction f key v bt tp rule: p_abs_expand_down.induct)
  case (1 f1 key v bt tp)
  note el = "1.prems"(1) and mono = "1.prems"(2) and bl = "1.prems"(3) and nb = "1.prems"(4)
    and tp = "1.prems"(5)
  have above: "\<forall>i. bt \<le> i \<and> i < length xs \<longrightarrow> f1 key (xs ! i) < 0"
  proof (intro allI impI)
    fix i assume i: "bt \<le> i \<and> i < length xs"
    with mono[unfolded key_mono_def] nb show "f1 key (xs ! i) < 0"
      by (meson linorder_not_less)
  qed
  show ?case
  proof (cases "bt < tp")
    case True
    with above bl show ?thesis
      by (subst p_abs_expand_down.simps) (simp add: bs_inv_def)
  next
    case False
    with bl have lt: "bt - tp < length xs" by simp
    with el have e: "p_vect_elem v (bt - tp) = Some (xs ! (bt - tp))" by (simp add: elems_of_def)
    show ?thesis
    proof (cases "f1 key (xs ! (bt - tp)) \<ge> 0")
      case True
      with above lt bl e False show ?thesis
        by (subst p_abs_expand_down.simps) (simp add: bs_inv_def)
    next
      case nge: False
      have "\<exists>bt' tp'. p_abs_expand_down f1 key v (bt - tp) (tp * 2) = Some (bt', tp') \<and> bs_inv f1 key xs bt' tp'"
        using "1.IH"[OF False e _ _ el mono lt] nge tp by simp
      with nge tp False e show ?thesis
        by (subst p_abs_expand_down.simps) simp
    qed
  qed
qed


lemma elems_of_live:
  assumes "vbegin v \<le> vend v" "vend v \<le> length (data v)"
  shows "elems_of v (vect_elements v)"
proof -
  from assms have sz: "p_vect_size v = vend v - vbegin v" by (simp add: p_vect_size_def isub_def)
  with assms have len: "length (vect_elements v) = p_vect_size v"
    by (simp add: vect_elements_def)
  have "\<forall>k < length (vect_elements v). p_vect_elem v k = Some (vect_elements v ! k)"
  proof (intro allI impI)
    fix k assume "k < length (vect_elements v)"
    with len sz assms have k: "vbegin v + k < length (data v)" "k < p_vect_size v" by simp_all
    then show "p_vect_elem v k = Some (vect_elements v ! k)"
      by (simp add: p_vect_elem_def slot_get_def vect_elements_def)
  qed
  with len show ?thesis by (simp add: elems_of_def)
qed

lemma elems_of_search_state:
  "elems_of v xs \<Longrightarrow> elems_of (v\<lparr>balance := a, bottom := b\<rparr>) xs"
  by (simp add: elems_of_def p_vect_size_def p_vect_elem_def)

lemma insertion_index_unique:
  assumes "is_insertion_index f key xs j" "is_insertion_index f key xs k"
  shows "j = k"
proof (rule ccontr)
  assume ne: "j \<noteq> k"
  have aux: "\<And>a b. is_insertion_index f key xs a \<Longrightarrow> is_insertion_index f key xs b \<Longrightarrow> a < b \<Longrightarrow> False"
  proof -
    fix a b assume a: "is_insertion_index f key xs a" and b: "is_insertion_index f key xs b" and lt: "a < b"
    from b lt have "a < length (take b xs)" by (simp add: is_insertion_index_def)
    with b have "f key (take b xs ! a) > 0" unfolding is_insertion_index_def list_all_length by blast
    with lt have p: "f key (xs ! a) > 0" by simp
    from b lt have "0 < length (drop a xs)" by (simp add: is_insertion_index_def)
    with a have "f key (drop a xs ! 0) < 0" unfolding is_insertion_index_def list_all_length by blast
    with b lt have "f key (xs ! a) < 0" by (simp add: is_insertion_index_def)
    with p show False by simp
  qed
  from ne consider "j < k" | "k < j" by linarith
  then show False using aux assms by cases blast+
qed

lemma insertion_index_intro:
  assumes mono: "key_mono f key xs" and ab: "\<forall>x \<in> set xs. f key x \<noteq> 0"
    and k: "k \<le> length xs" and lo: "0 < k \<longrightarrow> f key (xs ! (k - 1)) \<ge> 0"
    and hi: "\<forall>i. k \<le> i \<and> i < length xs \<longrightarrow> f key (xs ! i) < 0"
  shows "is_insertion_index f key xs k"
proof -
  have "\<forall>i < length (take k xs). f key (take k xs ! i) > 0"
  proof (intro allI impI)
    fix i assume "i < length (take k xs)"
    with k have i: "i < k" by simp
    with lo k mono[unfolded key_mono_def] have "f key (xs ! i) \<ge> 0"
      by (metis One_nat_def Suc_pred diff_less less_Suc_eq_le less_le_trans zero_less_one gr_implies_not0 not_gr_zero)
    moreover from i k ab have "f key (xs ! i) \<noteq> 0" by simp
    ultimately show "f key (take k xs ! i) > 0" using i by simp
  qed
  moreover have "\<forall>i < length (drop k xs). f key (drop k xs ! i) < 0"
    using hi k by simp
  ultimately show ?thesis using k by (simp add: is_insertion_index_def list_all_length)
qed

lemma sorted6_fields:
  "vbegin sorted6 = 0" "vend sorted6 = 6" "data sorted6 = [1, 2, 3, 5, 8, 9, 0, 0, 0, 0, 0, 0]"
  "bottom sorted6 = 0" "balance sorted6 = 0"
  unfolding sorted6_def by code_simp+

text \<open>C2, counterexample. On the sorted vector 1, 2, 3, 5, 8, 9 the search for the absent
  key 4 returns false and stores 0, while the insertion index of 4 is 3 and not 0.\<close>

theorem vect_bsearch_absent_key_counterexample:
  "fst (the (vect_bsearch sorted6 4 (Some cmp_ptr) 7)) = False
   \<and> fst (snd (the (vect_bsearch sorted6 4 (Some cmp_ptr) 7))) = 0
   \<and> vect_elements sorted6 = [1, 2, 3, 5, 8, 9]
   \<and> \<not> is_insertion_index cmp_ptr 4 (vect_elements sorted6) 0
   \<and> is_insertion_index cmp_ptr 4 (vect_elements sorted6) 3"
  unfolding sorted6_def by code_simp

text \<open>C2, amended. Let \<open>v\<close> be a non-empty vector whose live range lies in its slot array
  and is sorted under the valid comparator \<open>f1\<close>, let the non-null \<open>key\<close> compare equal to no
  element, and let the search take the plain binary search (\<open>balance \<ge> 32\<close> or size at
  most 64) or start from a remembered \<open>bottom\<close> below the size. Then
  \<^verbatim>\<open>p_adaptive_binary_search\<close> returns false and stores the insertion index of \<open>key\<close>, which
  is unique; \<^verbatim>\<open>vect_bsearch\<close> returns false and stores 0 in \<open>idx\<close>; the elements are
  unchanged.\<close>

theorem vect_bsearch_absent_key:
  assumes wf: "vbegin v \<le> vend v" "vend v \<le> length (data v)"
    and nonempty: "p_vect_size v > 0" and key: "key \<noteq> NULL"
    and cmp: "valid_comparator f1"
    and sorted: "sorted_wrt (\<lambda>a b. f1 a b \<le> 0) (vect_elements v)"
    and absent: "\<forall>x \<in> set (vect_elements v). f1 key x \<noteq> 0"
    and memory: "balance v \<ge> 32 \<or> p_vect_size v \<le> 64 \<or> bottom v < p_vect_size v"
  shows "\<exists>k v'. p_adaptive_binary_search v key f1 = Some (False, k, v')
           \<and> is_insertion_index f1 key (vect_elements v) k
           \<and> (\<forall>j. is_insertion_index f1 key (vect_elements v) j \<longrightarrow> j = k)
           \<and> vect_bsearch v key (Some f1) idx = Some (False, 0, v')
           \<and> vect_elements v' = vect_elements v"
proof -
  let ?xs = "vect_elements v"
  have el: "elems_of v ?xs" using wf by (rule elems_of_live)
  then have sz: "p_vect_size v = length ?xs" by (simp add: elems_of_def)
  have mono: "key_mono f1 key ?xs" using cmp sorted by (rule key_mono_sorted)
  have start: "\<exists>bt tp.
      (if balance v \<ge> 32 \<or> p_vect_size v \<le> 64 then Some (0, p_vect_size v)
       else do {
              e \<leftarrow> p_vect_elem v (bottom v);
              if f1 key e \<ge> 0 then p_abs_expand_up f1 key v (bottom v) 32
              else p_abs_expand_down f1 key v (bottom v) 32
            }) = Some (bt, tp) \<and> bs_inv f1 key ?xs bt tp"
  proof (cases "balance v \<ge> 32 \<or> p_vect_size v \<le> 64")
    case True
    then show ?thesis using sz by (simp add: bs_inv_def)
  next
    case False
    with memory sz have b: "bottom v < length ?xs" by simp
    with el have e: "p_vect_elem v (bottom v) = Some (?xs ! bottom v)" by (simp add: elems_of_def)
    show ?thesis
    proof (cases "f1 key (?xs ! bottom v) \<ge> 0")
      case True
      from expand_up_inv[OF el mono b True, of 32] False e True show ?thesis by simp
    next
      case neg: False
      then have "f1 key (?xs ! bottom v) < 0" by simp
      from expand_down_inv[OF el mono b this, of 32] False e neg show ?thesis by simp
    qed
  qed
  then obtain bt tp where s1: "(if balance v \<ge> 32 \<or> p_vect_size v \<le> 64 then Some (0, p_vect_size v)
       else do {
              e \<leftarrow> p_vect_elem v (bottom v);
              if f1 key e \<ge> 0 then p_abs_expand_up f1 key v (bottom v) 32
              else p_abs_expand_down f1 key v (bottom v) 32
            }) = Some (bt, tp)" and i1: "bs_inv f1 key ?xs bt tp" by blast
  from monobound_inv[OF el mono i1] obtain bt2 tp2
    where s2: "p_abs_monobound f1 key v bt tp = Some (bt2, tp2)" and i2: "bs_inv f1 key ?xs bt2 tp2"
    by blast
  let ?v1 = "v\<lparr>balance := (if bottom v > bt2 then bottom v - bt2 else bt2 - bottom v), bottom := bt2\<rparr>"
  have el1: "elems_of ?v1 ?xs" using el by (rule elems_of_search_state)
  from scan_inv[OF el1 absent i2] obtain k
    where s3: "p_abs_scan f1 key ?v1 bt2 tp2 = Some (False, k)" and k: "k \<le> length ?xs"
      and lo: "0 < k \<longrightarrow> f1 key (?xs ! (k - 1)) \<ge> 0"
      and hi: "\<forall>i. k \<le> i \<and> i < length ?xs \<longrightarrow> f1 key (?xs ! i) < 0"
    by blast
  have ins: "is_insertion_index f1 key ?xs k"
    using mono absent k lo hi by (rule insertion_index_intro)
  have res: "p_adaptive_binary_search v key f1 = Some (False, k, ?v1)"
    unfolding p_adaptive_binary_search_def s1 using s2 s3 by simp
  have "vect_bsearch v key (Some f1) idx = Some (False, 0, ?v1)"
    using nonempty key res by (simp add: vect_bsearch_def)
  moreover have "vect_elements ?v1 = ?xs" by (simp add: vect_elements_def p_vect_size_def)
  moreover have "\<forall>j. is_insertion_index f1 key ?xs j \<longrightarrow> j = k"
    using ins insertion_index_unique by blast
  ultimately show ?thesis using res ins by blast
qed

theorem vect_bsearch_absent_key_witness:
  "vbegin sorted6 \<le> vend sorted6 \<and> vend sorted6 \<le> length (data sorted6)
   \<and> p_vect_size sorted6 > 0 \<and> (4::nat) \<noteq> NULL \<and> valid_comparator cmp_ptr
   \<and> sorted_wrt (\<lambda>a b. cmp_ptr a b \<le> 0) (vect_elements sorted6)
   \<and> list_all (\<lambda>x. cmp_ptr 4 x \<noteq> 0) (vect_elements sorted6)
   \<and> p_vect_size sorted6 \<le> 64
   \<and> (\<exists>v'. p_adaptive_binary_search sorted6 4 cmp_ptr = Some (False, 3, v')
           \<and> vect_bsearch sorted6 4 (Some cmp_ptr) 7 = Some (False, 0, v'))"
proof -
  have el: "vect_elements sorted6 = [1, 2, 3, 5, 8, 9]" and sz: "p_vect_size sorted6 = 6"
    by (simp_all add: vect_elements_def p_vect_size_def isub_def sorted6_fields)
  have h1: "vbegin sorted6 \<le> vend sorted6" and h2: "vend sorted6 \<le> length (data sorted6)"
    by (simp_all add: sorted6_fields)
  have h3: "p_vect_size sorted6 > 0" by (simp add: sz)
  have h4: "valid_comparator cmp_ptr" by (auto simp: valid_comparator_def cmp_ptr_def)
  have h5: "sorted_wrt (\<lambda>a b. cmp_ptr a b \<le> 0) (vect_elements sorted6)"
    by (simp add: el cmp_ptr_def)
  have h6: "\<forall>x \<in> set (vect_elements sorted6). cmp_ptr 4 x \<noteq> 0" by (simp add: el cmp_ptr_def)
  have h7: "balance sorted6 \<ge> 32 \<or> p_vect_size sorted6 \<le> 64 \<or> bottom sorted6 < p_vect_size sorted6"
    by (simp add: sz)
  have i3: "is_insertion_index cmp_ptr 4 (vect_elements sorted6) 3"
    by (simp add: el is_insertion_index_def cmp_ptr_def)
  from vect_bsearch_absent_key[OF h1 h2 h3 _ h4 h5 h6 h7, of 7] obtain k v'
    where r: "p_adaptive_binary_search sorted6 4 cmp_ptr = Some (False, k, v')"
      and u: "\<forall>j. is_insertion_index cmp_ptr 4 (vect_elements sorted6) j \<longrightarrow> j = k"
      and b: "vect_bsearch sorted6 4 (Some cmp_ptr) 7 = Some (False, 0, v')"
    by auto
  from u i3 have "k = 3" by blast
  with r b h1 h2 h3 h4 h5 h6 sz show ?thesis by (auto simp: list_all_iff)
qed


end
